theory Spec2Isabelle
  imports Complex_Main "HOL-Library.Multiset"
begin

section \<open>Python values, dictionaries and errors\<close>

text \<open>
  The repository is a small retrieval pipeline in Python: \<^verbatim>\<open>database.py\<close> wraps a flat
  L2 index of the FAISS library together with a parallel list of documents,
  \<^verbatim>\<open>processors.py\<close> turns uploaded files into documents and \<^verbatim>\<open>llm.py\<close> asks a
  language model for an answer, retrying on failure.

  A document is a Python \<^verbatim>\<open>dict\<close> with string keys. Dictionaries keep their insertion
  order, so they are association lists with distinct keys.

  A finite floating-point number is the rational number that is its value. The store is
  modelled twice. In the first reading (\<open>add_vector\<close>, \<open>search\<close>) arithmetic is
  exact: it is used where no statement depends on a computed number, and for concrete
  runs whose numbers binary32 computes exactly. In the second reading
  (\<open>add_vector_with\<close>, \<open>search_f32\<close>) the arithmetic of the machine is a
  parameter: \<open>f32\<close> is the rounding of a number to binary32, which
  \<^verbatim>\<open>astype('float32')\<close> and every binary32 operation of numpy apply, and \<open>l2\<close> is the
  squared distance as the library computes it, in binary32 and in an order of summation
  that is the library's own. A statement about the second reading holds whatever these
  two functions are. A coordinate that the conversion to binary32 turns into an infinity
  or a NaN is outside the model; a distance that overflows is not.
\<close>

datatype pyval =
    PNone
  | PBool bool
  | PInt int
  | PFloat rat
  | PStr string
  | PList "pyval list"
  | PDict "(string \<times> pyval) list"

type_synonym document = "(string \<times> pyval) list"

text \<open>
  The exceptions of the code. \<open>DimensionMismatch\<close> and \<open>InvalidK\<close> are the two
  \<^verbatim>\<open>AssertionError\<close>s of the FAISS wrapper (\<^verbatim>\<open>assert d == self.d\<close> and
  \<^verbatim>\<open>assert k > 0\<close>), told apart by their cause; \<open>LoadError\<close> is whatever
  \<^verbatim>\<open>faiss.read_index\<close> or \<^verbatim>\<open>pickle.load\<close> raise on a file they cannot read;
  \<open>OSError\<close> is what a write that fails raises.
\<close>

datatype error =
    DimensionMismatch
  | InvalidK
  | KeyError string
  | IndexError
  | LoadError
  | FileNotFoundError
  | OSError
  | TypeError
  | ValueError string

text \<open>
  \<^verbatim>\<open>d[k]\<close> and \<^verbatim>\<open>d[k] = v\<close> on a dictionary held by value: an assignment replaces
  the value of a key where the key stands, or appends a new key. The copy of a dictionary
  held by value is the dictionary.
\<close>

definition getitem :: "(string \<times> 'v) list \<Rightarrow> string \<Rightarrow> error + 'v" where
  "getitem dct k = (case map_of dct k of None \<Rightarrow> Inl (KeyError k) | Some v \<Rightarrow> Inr v)"

fun setitem :: "(string \<times> 'v) list \<Rightarrow> string \<Rightarrow> 'v \<Rightarrow> (string \<times> 'v) list" where
  "setitem [] k v = [(k, v)]"
| "setitem ((k', v') # kvs) k v =
     (if k' = k then (k, v) # kvs else (k', v') # setitem kvs k v)"

text \<open>\<^verbatim>\<open>xs[i]\<close> on a list: a negative index counts from the end, out of range raises.\<close>

definition list_getitem :: "'a list \<Rightarrow> int \<Rightarrow> error + 'a" where
  "list_getitem xs i =
     (if 0 \<le> i \<and> i < int (length xs) then Inr (xs ! nat i)
      else if i < 0 \<and> - int (length xs) \<le> i then Inr (xs ! nat (int (length xs) + i))
      else Inl IndexError)"

section \<open>The flat L2 index of the library\<close>

text \<open>
  \<^verbatim>\<open>faiss.IndexFlatL2(d)\<close> keeps the vectors it was given, in the order of arrival;
  \<^verbatim>\<open>ntotal\<close> is their number. The Python wrapper of \<^verbatim>\<open>add\<close> and of \<^verbatim>\<open>search\<close> asserts
  that the rows it receives have \<open>d\<close> columns. \<^verbatim>\<open>search\<close> returns, for the one query row
  the code passes, \<open>k\<close> pairs of a squared Euclidean distance and a position, nearest first,
  filling up with position \<open>-1\<close> (and the largest binary32 number as distance) when
  fewer than \<open>k\<close> vectors are stored. Equal distances are returned in storage order here;
  no statement below depends on how ties are broken.
\<close>

type_synonym vec = "rat list"

record faiss_index =
  dim :: nat
  xb :: "vec list"

definition IndexFlatL2 :: "nat \<Rightarrow> faiss_index" where
  "IndexFlatL2 n = \<lparr>dim = n, xb = []\<rparr>"

definition ntotal :: "faiss_index \<Rightarrow> nat" where
  "ntotal idx = length (xb idx)"

definition index_add :: "faiss_index \<Rightarrow> vec \<Rightarrow> error + faiss_index" where
  "index_add idx x =
     (if length x \<noteq> dim idx then Inl DimensionMismatch
      else Inr (idx\<lparr>xb := xb idx @ [x]\<rparr>))"

definition L2sqr :: "vec \<Rightarrow> vec \<Rightarrow> rat" where
  "L2sqr x y = sum_list (map (\<lambda>(a, b). (a - b) * (a - b)) (zip x y))"

definition FLT_MAX :: rat where
  "FLT_MAX = 340282346638528859811704183484516925440"

definition nearest :: "faiss_index \<Rightarrow> vec \<Rightarrow> (rat \<times> int) list" where
  "nearest idx x =
     sort_key fst (map (\<lambda>(i, y). (L2sqr x y, int i)) (enumerate 0 (xb idx)))"

definition index_search :: "faiss_index \<Rightarrow> vec \<Rightarrow> int \<Rightarrow> error + (rat \<times> int) list" where
  "index_search idx x k =
     (if length x \<noteq> dim idx then Inl DimensionMismatch
      else if k \<le> 0 then Inl InvalidK
      else let best = take (nat k) (nearest idx x)
           in Inr (best @ replicate (nat k - length best) (FLT_MAX, - 1)))"

text \<open>
  The same search with the distance of the library as a parameter. \<open>l2 x y\<close> is the
  binary32 number the library computes for the query row \<open>x\<close> and the stored vector
  \<open>y\<close>, and \<open>None\<close> when that is NaN, infinite or not below the largest binary32
  number: the result heap starts at that number and takes only what is smaller, so such
  a vector is never returned and its place is filled with position \<open>-1\<close>.
\<close>

definition nearest_f32 :: "(vec \<Rightarrow> vec \<Rightarrow> rat option) \<Rightarrow> faiss_index \<Rightarrow> vec \<Rightarrow> (rat \<times> int) list" where
  "nearest_f32 l2 idx x =
     sort_key fst
       (List.map_filter (\<lambda>(i, y). map_option (\<lambda>d. (d, int i)) (l2 x y))
          (enumerate 0 (xb idx)))"

definition index_search_f32 ::
  "(vec \<Rightarrow> vec \<Rightarrow> rat option) \<Rightarrow> faiss_index \<Rightarrow> vec \<Rightarrow> int \<Rightarrow> error + (rat \<times> int) list" where
  "index_search_f32 l2 idx x k =
     (if length x \<noteq> dim idx then Inl DimensionMismatch
      else if k \<le> 0 then Inl InvalidK
      else let best = take (nat k) (nearest_f32 l2 idx x)
           in Inr (best @ replicate (nat k - length best) (FLT_MAX, - 1)))"

section \<open>The vector store\<close>

text \<open>
  The object \<^verbatim>\<open>FAISSVectorDB\<close> and the two files it reads and writes. A file holds what
  \<^verbatim>\<open>faiss.write_index\<close> wrote, what \<^verbatim>\<open>pickle.dump\<close> wrote, or anything else; the file
  system maps a path to the file there. Writing a file always succeeds in this model.
\<close>

record store =
  dimension :: nat
  index_file :: string
  data_file :: string
  index :: faiss_index
  documents :: "document list"

datatype file_content =
    IndexBytes faiss_index
  | PickleBytes "document list"
  | Garbage

type_synonym disk = "string \<Rightarrow> file_content option"

definition exists :: "disk \<Rightarrow> string \<Rightarrow> bool" where
  "exists fs p = (fs p \<noteq> None)"

definition read_index :: "disk \<Rightarrow> string \<Rightarrow> error + faiss_index" where
  "read_index fs p = (case fs p of Some (IndexBytes idx) \<Rightarrow> Inr idx | _ \<Rightarrow> Inl LoadError)"

definition pickle_load :: "disk \<Rightarrow> string \<Rightarrow> error + document list" where
  "pickle_load fs p = (case fs p of Some (PickleBytes docs) \<Rightarrow> Inr docs | _ \<Rightarrow> Inl LoadError)"

text \<open>\<^verbatim>\<open>_create_new_index\<close>: a fresh index of the configured dimension, no documents.\<close>

definition create_new_index :: "store \<Rightarrow> store" where
  "create_new_index s = s\<lparr>index := IndexFlatL2 (dimension s), documents := []\<rparr>"

text \<open>
  \<^verbatim>\<open>__init__\<close>. The attribute \<^verbatim>\<open>index\<close> does not exist before one of the branches
  assigns it; the record starts with the value that \<^verbatim>\<open>_create_new_index\<close> would assign,
  which every branch overwrites.
\<close>

definition init :: "nat \<Rightarrow> string \<Rightarrow> string \<Rightarrow> disk \<Rightarrow> store" where
  "init dimension' index_file' data_file' fs =
     (let s = \<lparr>dimension = dimension', index_file = index_file', data_file = data_file',
                index = IndexFlatL2 dimension', documents = []\<rparr>
      in if exists fs index_file' \<and> exists fs data_file' then
           (case read_index fs index_file' of
              Inl e \<Rightarrow> create_new_index s
            | Inr idx \<Rightarrow>
                (case pickle_load fs data_file' of
                   Inl e \<Rightarrow> create_new_index (s\<lparr>index := idx\<rparr>)
                 | Inr docs \<Rightarrow> s\<lparr>index := idx, documents := docs\<rparr>))
         else create_new_index s)"

text \<open>\<^verbatim>\<open>_save\<close>: the index file is written first, the document file second.\<close>

definition save :: "store \<Rightarrow> disk \<Rightarrow> disk" where
  "save s fs =
     (fs(index_file s \<mapsto> IndexBytes (index s)))(data_file s \<mapsto> PickleBytes (documents s))"

text \<open>
  \<^verbatim>\<open>add_vector\<close>. The object and the files are returned together with the exception, if
  any, because the method can raise after it has changed them: the last line formats
  \<^verbatim>\<open>document['id']\<close>.
\<close>

definition add_vector :: "store \<Rightarrow> disk \<Rightarrow> vec \<Rightarrow> document \<Rightarrow> error option \<times> store \<times> disk" where
  "add_vector s fs vector document =
     (case index_add (index s) vector of
        Inl e \<Rightarrow> (Some e, s, fs)
      | Inr idx \<Rightarrow>
          (let s' = s\<lparr>index := idx, documents := documents s @ [document]\<rparr>;
               fs' = save s' fs
           in case getitem document ''id'' of
                Inl e \<Rightarrow> (Some e, s', fs')
              | Inr _ \<Rightarrow> (None, s', fs')))"

text \<open>
  \<^verbatim>\<open>_save\<close> and \<^verbatim>\<open>add_vector\<close> once more, with what the first reading leaves out. Each
  of the two writes of \<^verbatim>\<open>_save\<close> either completes, or raises and leaves the file as it
  was, or raises and leaves a file that cannot be read; the second write is not reached
  when the first one raises. A process that stops between the two writes leaves the disk
  of a first write that completes and a second that leaves its file as it was.
  \<^verbatim>\<open>add_vector\<close> hands the index the vector converted to binary32.
\<close>

datatype write_outcome = Written | NotWritten | Truncated

definition save_with :: "write_outcome \<Rightarrow> write_outcome \<Rightarrow> store \<Rightarrow> disk \<Rightarrow> error option \<times> disk" where
  "save_with w1 w2 s fs =
     (case w1 of
        NotWritten \<Rightarrow> (Some OSError, fs)
      | Truncated \<Rightarrow> (Some OSError, fs(index_file s \<mapsto> Garbage))
      | Written \<Rightarrow>
          (let fs1 = fs(index_file s \<mapsto> IndexBytes (index s))
           in case w2 of
                NotWritten \<Rightarrow> (Some OSError, fs1)
              | Truncated \<Rightarrow> (Some OSError, fs1(data_file s \<mapsto> Garbage))
              | Written \<Rightarrow> (None, fs1(data_file s \<mapsto> PickleBytes (documents s)))))"

definition add_vector_with ::
  "(rat \<Rightarrow> rat) \<Rightarrow> write_outcome \<Rightarrow> write_outcome \<Rightarrow> store \<Rightarrow> disk \<Rightarrow> vec \<Rightarrow> document
     \<Rightarrow> error option \<times> store \<times> disk" where
  "add_vector_with f32 w1 w2 s fs vector document =
     (let vector_np = map f32 vector
      in case index_add (index s) vector_np of
           Inl e \<Rightarrow> (Some e, s, fs)
         | Inr idx \<Rightarrow>
             (let s' = s\<lparr>index := idx, documents := documents s @ [document]\<rparr>
              in case save_with w1 w2 s' fs of
                   (Some e, fs') \<Rightarrow> (Some e, s', fs')
                 | (None, fs') \<Rightarrow>
                     (case getitem document ''id'' of
                        Inl e \<Rightarrow> (Some e, s', fs')
                      | Inr _ \<Rightarrow> (None, s', fs'))))"

text \<open>
  The loop of \<^verbatim>\<open>search\<close> over the pairs the index returned: a copy of the document at
  the position, with \<^verbatim>\<open>similarity_score\<close> set; the debug line reads \<^verbatim>\<open>doc['id']\<close>.
\<close>

fun prepare_results :: "document list \<Rightarrow> (rat \<times> int) list \<Rightarrow> error + document list" where
  "prepare_results docs [] = Inr []"
| "prepare_results docs ((distance, idx) # rest) =
     (if idx \<noteq> - 1 then
        (case list_getitem docs idx of
           Inl e \<Rightarrow> Inl e
         | Inr stored \<Rightarrow>
             (let doc = setitem stored ''similarity_score'' (PFloat (1 - distance / 2))
              in case getitem doc ''id'' of
                   Inl e \<Rightarrow> Inl e
                 | Inr _ \<Rightarrow>
                     (case prepare_results docs rest of
                        Inl e \<Rightarrow> Inl e
                      | Inr results \<Rightarrow> Inr (doc # results))))
      else prepare_results docs rest)"

definition search :: "store \<Rightarrow> vec \<Rightarrow> int \<Rightarrow> error + document list" where
  "search s query_vector k =
     (if ntotal (index s) = 0 then Inr []
      else let k_to_search = min k (int (ntotal (index s)))
           in case index_search (index s) query_vector k_to_search of
                Inl e \<Rightarrow> Inl e
              | Inr hits \<Rightarrow> prepare_results (documents s) hits)"

text \<open>
  \<^verbatim>\<open>search\<close> once more, in the arithmetic of the machine. The query is converted to
  binary32; the score is \<^verbatim>\<open>float(1 - distances[0][i] / 2)\<close> on a binary32 distance, a
  division and a subtraction that each round to binary32, and the conversion to a Python
  float changes no value.
\<close>

definition score_f32 :: "(rat \<Rightarrow> rat) \<Rightarrow> rat \<Rightarrow> rat" where
  "score_f32 f32 distance = f32 (1 - f32 (distance / 2))"

fun prepare_results_f32 ::
  "(rat \<Rightarrow> rat) \<Rightarrow> document list \<Rightarrow> (rat \<times> int) list \<Rightarrow> error + document list" where
  "prepare_results_f32 f32 docs [] = Inr []"
| "prepare_results_f32 f32 docs ((distance, idx) # rest) =
     (if idx \<noteq> - 1 then
        (case list_getitem docs idx of
           Inl e \<Rightarrow> Inl e
         | Inr stored \<Rightarrow>
             (let similarity = score_f32 f32 distance;
                  doc = setitem stored ''similarity_score'' (PFloat similarity)
              in case getitem doc ''id'' of
                   Inl e \<Rightarrow> Inl e
                 | Inr _ \<Rightarrow>
                     (case prepare_results_f32 f32 docs rest of
                        Inl e \<Rightarrow> Inl e
                      | Inr results \<Rightarrow> Inr (doc # results))))
      else prepare_results_f32 f32 docs rest)"

definition search_f32 ::
  "(rat \<Rightarrow> rat) \<Rightarrow> (vec \<Rightarrow> vec \<Rightarrow> rat option) \<Rightarrow> store \<Rightarrow> vec \<Rightarrow> int \<Rightarrow> error + document list" where
  "search_f32 f32 l2 s query_vector k =
     (if ntotal (index s) = 0 then Inr []
      else let query_np = map f32 query_vector;
               k_to_search = min k (int (ntotal (index s)))
           in case index_search_f32 l2 (index s) query_np k_to_search of
                Inl e \<Rightarrow> Inl e
              | Inr hits \<Rightarrow> prepare_results_f32 f32 (documents s) hits)"

text \<open>
  \<^verbatim>\<open>clear\<close>: a fresh index, then each file is removed if it is there.
  \<^verbatim>\<open>os.remove\<close> raises on a path that does not exist.
\<close>

definition os_remove :: "disk \<Rightarrow> string \<Rightarrow> error + disk" where
  "os_remove fs p = (if exists fs p then Inr (fs(p := None)) else Inl FileNotFoundError)"

definition clear :: "store \<Rightarrow> disk \<Rightarrow> error option \<times> store \<times> disk" where
  "clear s fs =
     (let s' = create_new_index s
      in case (if exists fs (index_file s') then os_remove fs (index_file s') else Inr fs) of
           Inl e \<Rightarrow> (Some e, s', fs)
         | Inr fs1 \<Rightarrow>
             (case (if exists fs1 (data_file s') then os_remove fs1 (data_file s') else Inr fs1) of
                Inl e \<Rightarrow> (Some e, s', fs1)
              | Inr fs2 \<Rightarrow> (None, s', fs2)))"

text \<open>
  A run of the program against one storage location: the store is constructed, fresh or
  loaded; vectors are added by calls that return normally, so that both writes of
  \<^verbatim>\<open>_save\<close> completed; the store is cleared; the process is restarted. The last
  argument records the pairs of a vector and a document that the store holds, in the
  order in which they were added: the pairs the two files held when the run started, then
  every pair that was added, the vector as the index received it. A run starts on a disk
  whose two files, if the constructor can load them, hold as many vectors as documents,
  which is how a \<^verbatim>\<open>_save\<close> that completes leaves them.
\<close>

definition loadable :: "disk \<Rightarrow> string \<Rightarrow> string \<Rightarrow> bool" where
  "loadable fs p q =
     (case (read_index fs p, pickle_load fs q) of (Inr _, Inr _) \<Rightarrow> True | _ \<Rightarrow> False)"




text \<open>A sequence of calls of \<^verbatim>\<open>add_vector\<close> that all return normally.\<close>

fun add_all :: "store \<Rightarrow> disk \<Rightarrow> (vec \<times> document) list \<Rightarrow> (store \<times> disk) option" where
  "add_all s fs [] = Some (s, fs)"
| "add_all s fs ((v, doc) # rest) =
     (case add_vector s fs v doc of
        (None, s', fs') \<Rightarrow> add_all s' fs' rest
      | (Some e, s', fs') \<Rightarrow> None)"

text \<open>The score that \<^verbatim>\<open>search\<close> attached to a result.\<close>

definition score_of :: "document \<Rightarrow> rat option" where
  "score_of doc = (case map_of doc ''similarity_score'' of Some (PFloat x) \<Rightarrow> Some x | _ \<Rightarrow> None)"

section \<open>Answer generation with retries\<close>

text \<open>
  \<^verbatim>\<open>generate_answer_from_results\<close> first formats the results into the prompt, outside
  any handler: \<^verbatim>\<open>result['similarity_score']\<close> with the format \<^verbatim>\<open>.2f\<close>, which only a
  number accepts, then \<^verbatim>\<open>result['text']\<close>. The text of the prompt is not modelled, only
  whether building it raises.

  The body of the \<^verbatim>\<open>try\<close> (the remote call and the extraction of the answer from
  the response) either returns the answer or raises; the collaborator is a function from
  the number of earlier invocations to that outcome. The loop returns what the function
  returns (\<open>None\<close> when the loop ends without a \<^verbatim>\<open>return\<close>), the number of
  invocations and the delays slept, in seconds and in order.
\<close>

datatype outcome = Returned string | Raised string

fun build_context :: "document list \<Rightarrow> error + (pyval \<times> pyval) list" where
  "build_context [] = Inr []"
| "build_context (result # rest) =
     (case getitem result ''similarity_score'' of
        Inl e \<Rightarrow> Inl e
      | Inr score \<Rightarrow>
          (if \<not> (case score of PFloat _ \<Rightarrow> True | PInt _ \<Rightarrow> True | PBool _ \<Rightarrow> True | _ \<Rightarrow> False)
           then Inl (ValueError ''format'')
           else (case getitem result ''text'' of
                   Inl e \<Rightarrow> Inl e
                 | Inr text \<Rightarrow>
                     (case build_context rest of
                        Inl e \<Rightarrow> Inl e
                      | Inr context \<Rightarrow> Inr ((score, text) # context)))))"

function retry_loop ::
  "(nat \<Rightarrow> outcome) \<Rightarrow> nat \<Rightarrow> nat \<Rightarrow> nat \<Rightarrow> nat list \<Rightarrow> string option \<times> nat \<times> nat list" where
  "retry_loop create max_retries attempt retry_delay slept =
     (if attempt < max_retries then
        (case create attempt of
           Returned answer \<Rightarrow> (Some answer, Suc attempt, slept)
         | Raised e \<Rightarrow>
             (if attempt < max_retries - 1
              then retry_loop create max_retries (Suc attempt) (retry_delay * 2)
                     (slept @ [retry_delay])
              else (Some (''Error generating answer: '' @ e), Suc attempt, slept)))
      else (None, attempt, slept))"
  by pat_completeness auto
termination
  by (relation "measure (\<lambda>(create, max_retries, attempt, retry_delay, slept). max_retries - attempt)")
    auto

definition generate_answer_from_results ::
  "(nat \<Rightarrow> outcome) \<Rightarrow> document list \<Rightarrow> error + (string option \<times> nat \<times> nat list)" where
  "generate_answer_from_results create results =
     (case build_context results of
        Inl e \<Rightarrow> Inl e
      | Inr context \<Rightarrow> Inr (retry_loop create 3 0 2 []))"

section \<open>The JSON normalizer\<close>

text \<open>
  What \<^verbatim>\<open>json.loads\<close> returns. A number with a fraction or an exponent becomes a Python
  float and is not represented here; the characters of a string are the code points
  0 to 255.
\<close>

datatype json =
    JNull
  | JBool bool
  | JInt int
  | JStr string
  | JList "json list"
  | JDict "(string \<times> json) list"

fun of_json :: "json \<Rightarrow> pyval" where
  "of_json JNull = PNone"
| "of_json (JBool b) = PBool b"
| "of_json (JInt i) = PInt i"
| "of_json (JStr s) = PStr s"
| "of_json (JList xs) = PList (map of_json xs)"
| "of_json (JDict kvs) = PDict (map (\<lambda>(k, v). (k, of_json v)) kvs)"

text \<open>Decimal and hexadecimal digits, \<^verbatim>\<open>str\<close> of an integer, \<^verbatim>\<open>sep.join\<close>.\<close>

definition digit_char :: "nat \<Rightarrow> char" where
  "digit_char n = ''0123456789abcdef'' ! n"

function str_nat :: "nat \<Rightarrow> string" where
  "str_nat n = (if n < 10 then [digit_char n] else str_nat (n div 10) @ [digit_char (n mod 10)])"
  by pat_completeness auto
termination
  by (relation "measure id") auto

definition str_int :: "int \<Rightarrow> string" where
  "str_int i = (if i < 0 then CHR ''-'' # str_nat (nat (- i)) else str_nat (nat i))"

definition hex2 :: "nat \<Rightarrow> string" where
  "hex2 n = [digit_char (n div 16), digit_char (n mod 16)]"

fun join :: "string \<Rightarrow> string list \<Rightarrow> string" where
  "join sep [] = []"
| "join sep [x] = x"
| "join sep (x # y # ys) = x @ sep @ join sep (y # ys)"

text \<open>
  \<^verbatim>\<open>json.dumps\<close> with its defaults: separators \<^verbatim>\<open>', '\<close> and \<^verbatim>\<open>': '\<close>, strings in
  double quotes, every character outside the printable ASCII range escaped.
\<close>

definition json_escape_char :: "char \<Rightarrow> string" where
  "json_escape_char c =
     (let n = (of_char c :: nat)
      in if n = 0x22 then [CHR 0x5C, CHR 0x22]
         else if n = 0x5C then [CHR 0x5C, CHR 0x5C]
         else if n = 0x0A then [CHR 0x5C, CHR ''n'']
         else if n = 0x0D then [CHR 0x5C, CHR ''r'']
         else if n = 0x09 then [CHR 0x5C, CHR ''t'']
         else if n = 0x08 then [CHR 0x5C, CHR ''b'']
         else if n = 0x0C then [CHR 0x5C, CHR ''f'']
         else if n < 0x20 \<or> 0x7E < n then [CHR 0x5C, CHR ''u'', CHR ''0'', CHR ''0''] @ hex2 n
         else [c])"

definition json_string :: "string \<Rightarrow> string" where
  "json_string s = CHR 0x22 # concat (map json_escape_char s) @ [CHR 0x22]"

fun json_dumps :: "json \<Rightarrow> string" where
  "json_dumps JNull = ''null''"
| "json_dumps (JBool b) = (if b then ''true'' else ''false'')"
| "json_dumps (JInt i) = str_int i"
| "json_dumps (JStr s) = json_string s"
| "json_dumps (JList xs) = ''['' @ join '', '' (map json_dumps xs) @ '']''"
| "json_dumps (JDict kvs) =
     ''{'' @ join '', '' (map (\<lambda>(k, v). json_string k @ '': '' @ json_dumps v) kvs) @ ''}''"

text \<open>
  \<^verbatim>\<open>repr\<close> and \<^verbatim>\<open>str\<close> of Python: a string is quoted with single quotes, or with
  double quotes when it holds a single quote and no double quote; \<^verbatim>\<open>str\<close> of a string is
  the string itself and \<^verbatim>\<open>str\<close> of anything else is its \<^verbatim>\<open>repr\<close>.
\<close>

definition repr_char :: "char \<Rightarrow> char \<Rightarrow> string" where
  "repr_char quote c =
     (let n = (of_char c :: nat)
      in if c = quote \<or> n = 0x5C then [CHR 0x5C, c]
         else if n = 0x09 then [CHR 0x5C, CHR ''t'']
         else if n = 0x0A then [CHR 0x5C, CHR ''n'']
         else if n = 0x0D then [CHR 0x5C, CHR ''r'']
         else if n < 0x20 \<or> n = 0x7F then [CHR 0x5C, CHR ''x''] @ hex2 n
         else if n < 0x7F then [c]
         else if n \<le> 0xA0 \<or> n = 0xAD then [CHR 0x5C, CHR ''x''] @ hex2 n
         else [c])"

definition repr_string :: "string \<Rightarrow> string" where
  "repr_string s =
     (let quote = (if CHR 0x27 \<in> set s \<and> CHR 0x22 \<notin> set s then CHR 0x22 else CHR 0x27)
      in quote # concat (map (repr_char quote) s) @ [quote])"

fun repr :: "json \<Rightarrow> string" where
  "repr JNull = ''None''"
| "repr (JBool b) = (if b then ''True'' else ''False'')"
| "repr (JInt i) = str_int i"
| "repr (JStr s) = repr_string s"
| "repr (JList xs) = ''['' @ join '', '' (map repr xs) @ '']''"
| "repr (JDict kvs) =
     ''{'' @ join '', '' (map (\<lambda>(k, v). repr_string k @ '': '' @ repr v) kvs) @ ''}''"

definition str :: "json \<Rightarrow> string" where
  "str v = (case v of JStr s \<Rightarrow> s | _ \<Rightarrow> repr v)"

text \<open>
  \<^verbatim>\<open>process_json\<close>. The parser is a parameter: it returns the parsed value or the
  message of the exception it raised, which the handler wraps into a \<^verbatim>\<open>ValueError\<close>.
  Nothing after the parser can raise.
\<close>

definition process_json_item :: "nat \<Rightarrow> json \<Rightarrow> document" where
  "process_json_item i item =
     (case item of
        JDict _ \<Rightarrow>
          [(''id'', PStr (''json_'' @ str_nat i)),
           (''text'', PStr (json_dumps item)),
           (''metadata'', PDict [(''source'', PStr ''json''), (''index'', PInt (int i)),
                                 (''original'', of_json item)])]
      | _ \<Rightarrow>
          [(''id'', PStr (''json_'' @ str_nat i)),
           (''text'', PStr (str item)),
           (''metadata'', PDict [(''source'', PStr ''json''), (''index'', PInt (int i)),
                                 (''original'', of_json item)])])"

definition process_json_entry :: "string \<Rightarrow> json \<Rightarrow> document" where
  "process_json_entry key val =
     (let text = (case val of JDict _ \<Rightarrow> json_dumps val | JList _ \<Rightarrow> json_dumps val | _ \<Rightarrow> str val)
      in [(''id'', PStr (''json_'' @ key)),
          (''text'', PStr text),
          (''metadata'', PDict [(''source'', PStr ''json''), (''key'', PStr key),
                                (''original'', of_json val)])])"

definition process_json_data :: "json \<Rightarrow> document list" where
  "process_json_data data =
     (case data of
        JList items \<Rightarrow> map (\<lambda>(i, item). process_json_item i item) (enumerate 0 items)
      | JDict kvs \<Rightarrow> map (\<lambda>(key, val). process_json_entry key val) kvs
      | _ \<Rightarrow>
          [[(''id'', PStr ''json_0''),
            (''text'', PStr (str data)),
            (''metadata'', PDict [(''source'', PStr ''json''), (''original'', of_json data)])]])"

definition process_json :: "(string \<Rightarrow> string + json) \<Rightarrow> string \<Rightarrow> error + document list" where
  "process_json loads content =
     (case loads content of
        Inl msg \<Rightarrow> Inl (ValueError (''Error processing JSON: '' @ msg))
      | Inr data \<Rightarrow> Inr (process_json_data data))"

section \<open>Documents as objects\<close>

text \<open>
  Above a document is a value. In Python it is an object: \<^verbatim>\<open>self.documents\<close> holds
  references, \<^verbatim>\<open>dict.copy\<close> makes a new dictionary whose entries are the same
  references as the entries of the old one, and a caller who holds a reference can change
  the object behind it. For what \<^verbatim>\<open>search\<close> shares with its caller, the loop of
  \<^verbatim>\<open>search\<close> is modelled once more over a heap: a list of objects, the address of an
  object being its position, and a new object going to the end. An entry of a dictionary
  or of a list is an immutable value or a reference.
\<close>

type_synonym addr = nat

datatype oval =
    VNone
  | VBool bool
  | VInt int
  | VFloat rat
  | VStr string
  | Ref addr

datatype obj =
    DictObj "(string \<times> oval) list"
  | ListObj "oval list"

type_synonym heap = "obj list"

definition alloc :: "heap \<Rightarrow> obj \<Rightarrow> addr \<times> heap" where
  "alloc h ob = (length h, h @ [ob])"

text \<open>
  \<^verbatim>\<open>x.copy()\<close>, \<^verbatim>\<open>x[k] = v\<close> and \<^verbatim>\<open>x[k]\<close> with a string \<open>k\<close>. A list has \<^verbatim>\<open>copy\<close>
  too, and takes no string as index. An address outside the heap is not a reference any
  program holds; the model answers \<open>TypeError\<close> there.
\<close>

definition obj_copy :: "heap \<Rightarrow> addr \<Rightarrow> error + (addr \<times> heap)" where
  "obj_copy h a = (if a < length h then Inr (alloc h (h ! a)) else Inl TypeError)"

definition obj_setitem :: "heap \<Rightarrow> addr \<Rightarrow> string \<Rightarrow> oval \<Rightarrow> error + heap" where
  "obj_setitem h a k v =
     (if a < length h then
        (case h ! a of
           DictObj kvs \<Rightarrow> Inr (h[a := DictObj (setitem kvs k v)])
         | ListObj _ \<Rightarrow> Inl TypeError)
      else Inl TypeError)"

definition obj_getitem :: "heap \<Rightarrow> addr \<Rightarrow> string \<Rightarrow> error + oval" where
  "obj_getitem h a k =
     (if a < length h then
        (case h ! a of
           DictObj kvs \<Rightarrow> getitem kvs k
         | ListObj _ \<Rightarrow> Inl TypeError)
      else Inl TypeError)"

fun prepare_results_refs ::
  "heap \<Rightarrow> addr list \<Rightarrow> (rat \<times> int) list \<Rightarrow> (error + addr list) \<times> heap" where
  "prepare_results_refs h docs [] = (Inr [], h)"
| "prepare_results_refs h docs ((distance, idx) # rest) =
     (if idx \<noteq> - 1 then
        (case list_getitem docs idx of
           Inl e \<Rightarrow> (Inl e, h)
         | Inr stored \<Rightarrow>
             (case obj_copy h stored of
                Inl e \<Rightarrow> (Inl e, h)
              | Inr (doc, h1) \<Rightarrow>
                  (case obj_setitem h1 doc ''similarity_score'' (VFloat (1 - distance / 2)) of
                     Inl e \<Rightarrow> (Inl e, h1)
                   | Inr h2 \<Rightarrow>
                       (case obj_getitem h2 doc ''id'' of
                          Inl e \<Rightarrow> (Inl e, h2)
                        | Inr _ \<Rightarrow>
                            (case prepare_results_refs h2 docs rest of
                               (Inl e, h3) \<Rightarrow> (Inl e, h3)
                             | (Inr results, h3) \<Rightarrow> (Inr (doc # results), h3))))))
      else prepare_results_refs h docs rest)"

text \<open>
  \<^verbatim>\<open>search\<close> over the heap; \<^verbatim>\<open>self.index\<close> and the list \<^verbatim>\<open>self.documents\<close> of
  references are the second and the third argument. The method assigns to neither.
\<close>

definition search_refs ::
  "heap \<Rightarrow> faiss_index \<Rightarrow> addr list \<Rightarrow> vec \<Rightarrow> int \<Rightarrow> (error + addr list) \<times> heap" where
  "search_refs h idx docs query_vector k =
     (if ntotal idx = 0 then (Inr [], h)
      else let k_to_search = min k (int (ntotal idx))
           in case index_search idx query_vector k_to_search of
                Inl e \<Rightarrow> (Inl e, h)
              | Inr hits \<Rightarrow> prepare_results_refs h docs hits)"

text \<open>
  The value behind a reference, read to a given depth; \<open>None\<close> when the depth does not
  suffice or an address is outside the heap.
\<close>

fun value_of :: "nat \<Rightarrow> heap \<Rightarrow> oval \<Rightarrow> pyval option" where
  "value_of n h VNone = Some PNone"
| "value_of n h (VBool b) = Some (PBool b)"
| "value_of n h (VInt i) = Some (PInt i)"
| "value_of n h (VFloat x) = Some (PFloat x)"
| "value_of n h (VStr s) = Some (PStr s)"
| "value_of 0 h (Ref a) = None"
| "value_of (Suc n) h (Ref a) =
     (if a < length h then
        (case h ! a of
           DictObj kvs \<Rightarrow>
             map_option PDict (those (map (\<lambda>(k, v). map_option (Pair k) (value_of n h v)) kvs))
         | ListObj xs \<Rightarrow> map_option PList (those (map (value_of n h) xs)))
      else None)"

definition document_at :: "nat \<Rightarrow> heap \<Rightarrow> addr \<Rightarrow> document option" where
  "document_at n h a = (case value_of n h (Ref a) of Some (PDict kvs) \<Rightarrow> Some kvs | _ \<Rightarrow> None)"

section \<open>Example states\<close>

text \<open>The store that the constructor leaves when it loads nothing.\<close>

definition fresh_store :: "nat \<Rightarrow> string \<Rightarrow> string \<Rightarrow> store" where
  "fresh_store n p q =
     \<lparr>dimension = n, index_file = p, data_file = q, index = IndexFlatL2 n, documents = []\<rparr>"

text \<open>A disk with the two files that a store of dimension 2 saved after one addition.\<close>

definition two_files :: disk where
  "two_files =
     (Map.empty(''vector_index.faiss'' \<mapsto> IndexBytes \<lparr>dim = 2, xb = [[1, 0]]\<rparr>))
       (''vector_data.pkl'' \<mapsto> PickleBytes [[(''id'', PStr ''a'')]])"


text \<open>Three vectors on a line, at Euclidean distances 0, 1 and 2 from the origin.\<close>

definition three_vectors :: store where
  "three_vectors =
     \<lparr>dimension = 1, index_file = ''vector_index.faiss'', data_file = ''vector_data.pkl'',
      index = \<lparr>dim = 1, xb = [[0], [1], [2]]\<rparr>,
      documents = [[(''id'', PStr ''a'')], [(''id'', PStr ''b'')], [(''id'', PStr ''c'')]]\<rparr>"

text \<open>Three vectors in the plane, not stored in the order of their distance from the origin.\<close>

definition plane_vectors :: store where
  "plane_vectors =
     \<lparr>dimension = 2, index_file = ''vector_index.faiss'', data_file = ''vector_data.pkl'',
      index = \<lparr>dim = 2, xb = [[0, 2], [0, 0], [1, 0]]\<rparr>,
      documents = [[(''id'', PStr ''far'')], [(''id'', PStr ''here'')], [(''id'', PStr ''near'')]]\<rparr>"

text \<open>
  The distance of the library where binary32 computes it exactly: the exact squared
  distance, returned when it is below the largest binary32 number.
\<close>

definition exact_l2 :: "vec \<Rightarrow> vec \<Rightarrow> rat option" where
  "exact_l2 x y = (if L2sqr x y < FLT_MAX then Some (L2sqr x y) else None)"

text \<open>
  The three vectors in the plane and a fourth whose squared distance from the origin,
  the 128th power of two, is beyond binary32.
\<close>

definition beyond_vectors :: store where
  "beyond_vectors =
     \<lparr>dimension = 2, index_file = ''vector_index.faiss'', data_file = ''vector_data.pkl'',
      index = \<lparr>dim = 2, xb = [[0, 2], [18446744073709551616, 0], [0, 0], [1, 0]]\<rparr>,
      documents = [[(''id'', PStr ''far'')], [(''id'', PStr ''beyond'')],
                   [(''id'', PStr ''here'')], [(''id'', PStr ''near'')]]\<rparr>"

text \<open>
  A heap with one stored document, at address 1, whose metadata is the dictionary at
  address 0.
\<close>

definition heap_example :: heap where
  "heap_example =
     [DictObj [(''source'', VStr ''json'')],
      DictObj [(''id'', VStr ''a''), (''text'', VStr ''t''), (''metadata'', Ref 0)]]"

section \<open>Dictionaries and the index\<close>

lemma map_of_setitem: "map_of (setitem kvs k v) = (map_of kvs)(k \<mapsto> v)"
  by (induction kvs k v rule: setitem.induct) auto

lemma score_of_setitem: "score_of (setitem doc ''similarity_score'' (PFloat x)) = Some x"
  by (simp add: score_of_def map_of_setitem)

section \<open>The two readings of the store\<close>

text \<open>
  With exact arithmetic for the two parameters, and both writes completing, the second
  reading is the first.
\<close>

lemma add_vector_exact: "add_vector_with (\<lambda>x. x) Written Written s fs v doc = add_vector s fs v doc"
  by (simp add: add_vector_with_def add_vector_def save_with_def save_def Let_def
      split: sum.splits)

lemma prepare_results_exact: "prepare_results_f32 (\<lambda>x. x) docs hits = prepare_results docs hits"
  by (induction docs hits rule: prepare_results.induct)
    (auto simp: Let_def score_f32_def split: sum.splits)

lemma nearest_exact: "nearest_f32 (\<lambda>x y. Some (L2sqr x y)) idx q = nearest idx q"
proof -
  have "List.map_filter (\<lambda>(i, y). map_option (\<lambda>d. (d, int i)) (Some (L2sqr q y))) ps
          = map (\<lambda>(i, y). (L2sqr q y, int i)) ps" for ps :: "(nat \<times> vec) list"
    by (induction ps) (auto simp: List.map_filter_simps)
  then show ?thesis by (simp add: nearest_f32_def nearest_def)
qed

lemma index_search_exact:
  "index_search_f32 (\<lambda>x y. Some (L2sqr x y)) idx q k = index_search idx q k"
  by (simp add: index_search_f32_def index_search_def nearest_exact)

lemma search_exact: "search_f32 (\<lambda>x. x) (\<lambda>x y. Some (L2sqr x y)) s q k = search s q k"
  by (simp add: index_search_exact search_f32_def search_def index_search_f32_def index_search_def nearest_exact
      prepare_results_exact Let_def)

section \<open>Clearing the store\<close>

text \<open>
  C6. Clearing twice is clearing once. The first call raises nothing and leaves the
  configured dimension, an empty index of that dimension, no documents and neither file;
  the second call, on that state, raises nothing either and returns the same state:
  \<^verbatim>\<open>os.remove\<close> is not reached for a file that is not there.
\<close>

theorem clear_idempotent:
  "clear (fst (snd (clear s fs))) (snd (snd (clear s fs))) = clear s fs
   \<and> fst (clear s fs) = None
   \<and> fst (snd (clear s fs)) = s\<lparr>index := IndexFlatL2 (dimension s), documents := []\<rparr>
   \<and> dimension (fst (snd (clear s fs))) = dimension s
   \<and> ntotal (index (fst (snd (clear s fs)))) = 0
   \<and> documents (fst (snd (clear s fs))) = []
   \<and> \<not> exists (snd (snd (clear s fs))) (index_file s)
   \<and> \<not> exists (snd (snd (clear s fs))) (data_file s)"
  by (auto simp: clear_def create_new_index_def os_remove_def exists_def Let_def
      ntotal_def IndexFlatL2_def)

text \<open>C6 at a store loaded from two files: both calls return the empty store and an empty disk.\<close>

theorem clear_idempotent_witness:
  "fst (clear (init 2 ''vector_index.faiss'' ''vector_data.pkl'' two_files) two_files) = None
   \<and> clear (fst (snd (clear (init 2 ''vector_index.faiss'' ''vector_data.pkl'' two_files) two_files)))
        (snd (snd (clear (init 2 ''vector_index.faiss'' ''vector_data.pkl'' two_files) two_files)))
      = (None, \<lparr>dimension = 2, index_file = ''vector_index.faiss'', data_file = ''vector_data.pkl'',
                index = \<lparr>dim = 2, xb = []\<rparr>, documents = []\<rparr>, Map.empty)"
  using clear_idempotent [of "init 2 ''vector_index.faiss'' ''vector_data.pkl'' two_files" two_files]
  by (simp add: clear_def create_new_index_def os_remove_def exists_def Let_def
      IndexFlatL2_def init_def two_files_def read_index_def pickle_load_def fun_eq_iff)

section \<open>Construction\<close>

text \<open>
  C5. The constructor returns a store on every disk. When one of the two files is
  missing, or \<^verbatim>\<open>faiss.read_index\<close> raises, or \<^verbatim>\<open>pickle.load\<close> raises, that store is
  the fresh one: the given dimension, an empty index of that dimension, no documents.
\<close>

theorem init_load_failure_recovered:
  assumes "\<not> exists fs p \<or> \<not> exists fs q \<or> read_index fs p = Inl e \<or> pickle_load fs q = Inl e'"
  shows "init n p q fs = fresh_store n p q
         \<and> dimension (init n p q fs) = n \<and> dim (index (init n p q fs)) = n
         \<and> ntotal (index (init n p q fs)) = 0 \<and> documents (init n p q fs) = []"
  using assms
  by (auto simp: init_def create_new_index_def fresh_store_def IndexFlatL2_def ntotal_def
      Let_def split: sum.splits)

text \<open>C5 at a disk whose index file is unreadable while the document file is intact.\<close>

theorem init_load_failure_recovered_witness:
  "read_index (two_files(''vector_index.faiss'' \<mapsto> Garbage)) ''vector_index.faiss'' = Inl LoadError
   \<and> init 2 ''vector_index.faiss'' ''vector_data.pkl'' (two_files(''vector_index.faiss'' \<mapsto> Garbage))
       = \<lparr>dimension = 2, index_file = ''vector_index.faiss'', data_file = ''vector_data.pkl'',
           index = \<lparr>dim = 2, xb = []\<rparr>, documents = []\<rparr>"
proof -
  have bad: "read_index (two_files(''vector_index.faiss'' \<mapsto> Garbage)) ''vector_index.faiss''
      = Inl LoadError"
    by (simp add: read_index_def)
  from bad init_load_failure_recovered [of "two_files(''vector_index.faiss'' \<mapsto> Garbage)"
      "''vector_index.faiss''" "''vector_data.pkl''" LoadError LoadError 2]
  show ?thesis by (simp add: fresh_store_def IndexFlatL2_def)
qed

section \<open>Adding\<close>

text \<open>
  C10. A vector that the index accepts, with a document that has no key \<^verbatim>\<open>id\<close>:
  \<^verbatim>\<open>add_vector\<close> raises \<^verbatim>\<open>KeyError\<close>, and it does so after the vector and the document
  were appended and both files written. The store is not the store before the call.
\<close>

theorem add_vector_missing_id:
  assumes "length v = dim (index s)" and "map_of doc ''id'' = None"
  shows "let s' = s\<lparr>index := (index s)\<lparr>xb := xb (index s) @ [v]\<rparr>,
                      documents := documents s @ [doc]\<rparr>;
             fs' = save s' fs
         in add_vector s fs v doc = (Some (KeyError ''id''), s', fs')
            \<and> s' \<noteq> s
            \<and> ntotal (index s') = ntotal (index s) + 1
            \<and> length (documents s') = length (documents s) + 1
            \<and> fs' (data_file s) = Some (PickleBytes (documents s'))
            \<and> (index_file s \<noteq> data_file s \<longrightarrow>
                 fs' (index_file s) = Some (IndexBytes (index s')))"
proof -
  let ?s' = "s\<lparr>index := (index s)\<lparr>xb := xb (index s) @ [v]\<rparr>, documents := documents s @ [doc]\<rparr>"
  have run: "add_vector s fs v doc = (Some (KeyError ''id''), ?s', save ?s' fs)"
    using assms by (simp add: add_vector_def index_add_def getitem_def Let_def)
  have "documents ?s' \<noteq> documents s" by simp
  then have changed: "?s' \<noteq> s" by metis
  show ?thesis
    using run changed by (simp add: save_def Let_def ntotal_def)
qed

text \<open>C10 at a fresh store of dimension 2 and a document that has only a text.\<close>

theorem add_vector_missing_id_witness:
  "add_vector (init 2 ''i'' ''d'' Map.empty) Map.empty [1, 0] [(''text'', PStr ''t'')]
     = (Some (KeyError ''id''),
        \<lparr>dimension = 2, index_file = ''i'', data_file = ''d'',
         index = \<lparr>dim = 2, xb = [[1, 0]]\<rparr>, documents = [[(''text'', PStr ''t'')]]\<rparr>,
        (Map.empty(''i'' \<mapsto> IndexBytes \<lparr>dim = 2, xb = [[1, 0]]\<rparr>))
          (''d'' \<mapsto> PickleBytes [[(''text'', PStr ''t'')]]))"
  using add_vector_missing_id [of "[1, 0]" "init 2 ''i'' ''d'' Map.empty" "[(''text'', PStr ''t'')]" Map.empty]
  by (simp add: init_def exists_def create_new_index_def IndexFlatL2_def save_def Let_def)

section \<open>The dimension check\<close>

text \<open>
  C2 as stated fails twice. On an empty store \<^verbatim>\<open>search\<close> returns the empty list before
  anything looks at the query, whatever its length. And the constructor keeps the index it
  loads without comparing it with the configured dimension: a store configured with
  dimension 3 over files saved with dimension 2 accepts a vector of length 2.
\<close>

theorem dimension_enforcement_counterexample:
  "dimension (init 2 ''i'' ''d'' Map.empty) = 2 \<and> length [1 :: rat] \<noteq> 2
   \<and> search (init 2 ''i'' ''d'' Map.empty) [1] 5 = Inr []
   \<and> dimension (init 3 ''vector_index.faiss'' ''vector_data.pkl'' two_files) = 3
   \<and> length [0, 1 :: rat] \<noteq> 3
   \<and> fst (add_vector (init 3 ''vector_index.faiss'' ''vector_data.pkl'' two_files) two_files
            [0, 1] [(''id'', PStr ''b'')]) = None"
  by (simp add: init_def exists_def create_new_index_def IndexFlatL2_def search_def ntotal_def
      two_files_def read_index_def pickle_load_def add_vector_def index_add_def getitem_def Let_def)

text \<open>
  C2, amended. In a store whose index has the configured dimension, a vector of another
  length makes \<^verbatim>\<open>add_vector\<close> raise the dimension assertion with the store and the disk
  as they were, and makes \<^verbatim>\<open>search\<close> raise it when the store holds a vector; on an empty
  store \<^verbatim>\<open>search\<close> returns the empty list. \<^verbatim>\<open>search\<close> has no state to return: it
  assigns to no attribute and writes no file.
\<close>

theorem dimension_enforcement:
  assumes "dim (index s) = dimension s" and "length v \<noteq> dimension s"
  shows "add_vector s fs v doc = (Some DimensionMismatch, s, fs)
         \<and> search s v k = (if ntotal (index s) = 0 then Inr [] else Inl DimensionMismatch)"
  using assms by (simp add: add_vector_def index_add_def search_def index_search_def Let_def)

text \<open>C2, amended, at a store of dimension 2 that holds one vector, and a vector of length 1.\<close>

theorem dimension_enforcement_witness:
  "add_vector (init 2 ''vector_index.faiss'' ''vector_data.pkl'' two_files) two_files [1] [(''id'', PStr ''b'')]
     = (Some DimensionMismatch, init 2 ''vector_index.faiss'' ''vector_data.pkl'' two_files, two_files)
   \<and> search (init 2 ''vector_index.faiss'' ''vector_data.pkl'' two_files) [1] 5 = Inl DimensionMismatch"
  using dimension_enforcement [of "init 2 ''vector_index.faiss'' ''vector_data.pkl'' two_files" "[1]"
      two_files "[(''id'', PStr ''b'')]" 5]
  by (simp add: init_def exists_def two_files_def read_index_def pickle_load_def ntotal_def Let_def)

section \<open>Searching\<close>

text \<open>The six orders in which three things can be stored.\<close>

lemma three_orders:
  assumes "mset xs = {#a, b, c#}"
  shows "xs \<in> {[a, b, c], [a, c, b], [b, a, c], [b, c, a], [c, a, b], [c, b, a]}"
proof -
  from assms have "length xs = 3" by (metis size_mset size_add_mset size_empty numeral_3_eq_3)
  then obtain x y z where xs: "xs = [x, y, z]"
    by (auto simp: length_Suc_conv numeral_3_eq_3)
  with assms show ?thesis
    by (auto simp: add_eq_conv_ex)
qed

text \<open>
  C4 as stated fails at its example. Vectors at Euclidean distances 0, 1 and 2 from the
  query are at squared distances 0, 1 and 4, and the index returns squared distances: the
  scores are 1, 1/2 and -1, not 1, 1/2 and 0. Every number of this run is one that
  binary32 computes exactly, so the first reading is the run of the machine.
\<close>

theorem search_scores_counterexample:
  "L2sqr [0] (xb (index three_vectors) ! 0) = 0\<^sup>2
   \<and> L2sqr [0] (xb (index three_vectors) ! 1) = 1\<^sup>2
   \<and> L2sqr [0] (xb (index three_vectors) ! 2) = 2\<^sup>2
   \<and> search three_vectors [0] 3 =
       Inr [[(''id'', PStr ''a''), (''similarity_score'', PFloat 1)],
            [(''id'', PStr ''b''), (''similarity_score'', PFloat (1 / 2))],
            [(''id'', PStr ''c''), (''similarity_score'', PFloat (- 1))]]
   \<and> map score_of (projr (search three_vectors [0] 3)) \<noteq> [Some 1, Some (1 / 2), Some 0]"
  by (simp add: three_vectors_def search_def ntotal_def index_search_def nearest_def L2sqr_def
      Let_def list_getitem_def getitem_def score_of_def)

text \<open>
  What the library returns in the second reading: at most as many hits as vectors, in the
  order of the returned distance, each the distance of a stored vector.
\<close>

lemma nearest_f32_length: "length (nearest_f32 l2 idx q) \<le> ntotal idx"
proof -
  have "length (List.map_filter f ps) \<le> length ps" for f :: "nat \<times> vec \<Rightarrow> (rat \<times> int) option" and ps
    by (induction ps) (auto simp: List.map_filter_simps split: option.splits)
  from this [of _ "enumerate 0 (xb idx)"] show ?thesis
    by (simp add: nearest_f32_def ntotal_def)
qed

lemma nearest_f32_sorted: "sorted (map fst (nearest_f32 l2 idx q))"
  by (simp add: nearest_f32_def)

lemma nearest_f32_member:
  assumes "(distance, i) \<in> set (nearest_f32 l2 idx q)"
  shows "\<exists>j < ntotal idx. i = int j \<and> l2 q (xb idx ! j) = Some distance"
proof -
  from assms obtain j y where "(j, y) \<in> set (enumerate 0 (xb idx))"
    and "map_option (\<lambda>d. (d, int j)) (l2 q y) = Some (distance, i)"
    by (auto simp: nearest_f32_def List.map_filter_def)
  then show ?thesis
    by (auto simp: in_set_enumerate_eq ntotal_def)
qed

text \<open>
  The loop skips what the library filled in, and maps every other hit to the copy of its
  document with the score set.
\<close>

lemma prepare_results_f32_padding:
  "prepare_results_f32 f32 docs (hits @ replicate n (d, - 1)) = prepare_results_f32 f32 docs hits"
proof (induction hits)
  case Nil
  show ?case by (induction n) simp_all
next
  case (Cons hit hits)
  obtain distance idx where "hit = (distance, idx)" by (cases hit)
  with Cons show ?case by (auto simp: Let_def split: sum.splits)
qed

lemma prepare_results_f32_map:
  assumes "prepare_results_f32 f32 docs hits = Inr rs" and "\<forall>(distance, i) \<in> set hits. 0 \<le> i"
  shows "rs = map (\<lambda>(distance, i).
                setitem (docs ! nat i) ''similarity_score'' (PFloat (score_f32 f32 distance))) hits
         \<and> (\<forall>(distance, i) \<in> set hits. nat i < length docs)"
  using assms
proof (induction hits arbitrary: rs)
  case Nil
  then show ?case by simp
next
  case (Cons hit hits)
  obtain distance i where hit: "hit = (distance, i)" by (cases hit)
  with Cons.prems have nonneg: "0 \<le> i" by simp
  then have "i \<noteq> - 1" by simp
  with Cons.prems(1) hit nonneg
  obtain rest where rest: "prepare_results_f32 f32 docs hits = Inr rest"
    and inrange: "nat i < length docs"
    and rs: "rs = setitem (docs ! nat i) ''similarity_score'' (PFloat (score_f32 f32 distance)) # rest"
    by (auto simp: list_getitem_def Let_def split: sum.splits if_splits)
  from Cons.IH [OF rest] Cons.prems(2)
  show ?case using hit inrange rs by simp
qed

lemma search_f32_hits:
  assumes "search_f32 f32 l2 s q k = Inr rs"
  shows "prepare_results_f32 f32 (documents s)
           (take (nat k) (nearest_f32 l2 (index s) (map f32 q))) = Inr rs"
proof (cases "ntotal (index s) = 0")
  case True
  with assms have "rs = []" by (simp add: search_f32_def)
  moreover from True have "nearest_f32 l2 (index s) (map f32 q) = []"
    using nearest_f32_length [of l2 "index s" "map f32 q"] by simp
  ultimately show ?thesis by simp
next
  case False
  let ?n = "ntotal (index s)"
  let ?near = "nearest_f32 l2 (index s) (map f32 q)"
  from assms False obtain hits where
    found: "index_search_f32 l2 (index s) (map f32 q) (min k (int ?n)) = Inr hits"
    and prep: "prepare_results_f32 f32 (documents s) hits = Inr rs"
    by (auto simp: search_f32_def Let_def split: sum.splits)
  from found have pos: "0 < min k (int ?n)"
    by (auto simp: index_search_f32_def split: if_splits)
  have same: "take (nat (min k (int ?n))) ?near = take (nat k) ?near"
    using nearest_f32_length [of l2 "index s" "map f32 q"]
    by (cases "k \<le> int ?n") (simp_all add: min_def)
  from found pos obtain m where "hits = take (nat (min k (int ?n))) ?near @ replicate m (FLT_MAX, - 1)"
    by (auto simp: index_search_f32_def Let_def split: if_splits)
  with prep same show ?thesis by (simp add: prepare_results_f32_padding)
qed

text \<open>
  The score is a rounded number, not the exact one: at a returned distance of
  1/1073741824 it is 1 when the rounding takes 2147483647/2147483648 to 1, as binary32
  does.
\<close>

lemma score_f32_rounds:
  assumes "f32 (1 / 2147483648) = 1 / 2147483648" and "f32 (2147483647 / 2147483648) = 1"
  shows "score_f32 f32 (1 / 1073741824) = 1"
proof -
  have "(1 / 1073741824 :: rat) / 2 = 1 / 2147483648" by simp
  moreover have "1 - 1 / 2147483648 = (2147483647 / 2147483648 :: rat)" by simp
  ultimately show ?thesis
    unfolding score_f32_def using assms by (simp only:)
qed

text \<open>Rounding is monotone, so the score falls as the returned distance grows.\<close>

lemma scores_descend:
  assumes "mono (f32 :: rat \<Rightarrow> rat)" and "sorted ds"
  shows "sorted (rev (map (score_f32 f32) ds))"
proof -
  have anti: "score_f32 f32 y \<le> score_f32 f32 x" if "x \<le> y" for x y :: rat
  proof -
    from that have "x / 2 \<le> y / 2" by simp
    with assms(1) have "f32 (x / 2) \<le> f32 (y / 2)" by (rule monoD)
    then have "1 - f32 (y / 2) \<le> 1 - f32 (x / 2)" by simp
    with assms(1) show ?thesis unfolding score_f32_def by (rule monoD)
  qed
  from assms(2) have "sorted_wrt (\<lambda>x y. score_f32 f32 y \<le> score_f32 f32 x) ds"
    by (rule sorted_wrt_mono_rel [rotated]) (rule anti)
  then show ?thesis
    by (simp add: sorted_wrt_rev sorted_wrt_map)
qed

lemma search_f32_characterised:
  assumes "search_f32 f32 l2 s q k = Inr rs"
  shows "let distances = map fst (take (nat k) (nearest_f32 l2 (index s) (map f32 q)))
         in sorted distances
            \<and> map score_of rs = map (\<lambda>d. Some (score_f32 f32 d)) distances
            \<and> (\<forall>j < length rs. \<exists>i < ntotal (index s). i < length (documents s)
                  \<and> l2 (map f32 q) (xb (index s) ! i) = Some (distances ! j)
                  \<and> rs ! j = setitem (documents s ! i) ''similarity_score''
                               (PFloat (score_f32 f32 (distances ! j))))
            \<and> (mono f32 \<longrightarrow> sorted (rev (map (score_f32 f32) distances)))"
proof -
  let ?hits = "take (nat k) (nearest_f32 l2 (index s) (map f32 q))"
  let ?ds = "map fst ?hits"
  have srt: "sorted ?ds"
    using nearest_f32_sorted [of l2 "index s" "map f32 q"]
    by (simp add: take_map [symmetric] sorted_wrt_take)
  have mem: "\<exists>i < ntotal (index s). idx = int i \<and> l2 (map f32 q) (xb (index s) ! i) = Some distance"
    if "(distance, idx) \<in> set ?hits" for distance idx
    using that nearest_f32_member [of distance idx l2 "index s" "map f32 q"]
    by (auto dest: in_set_takeD)
  then have nonneg: "\<forall>(distance, idx) \<in> set ?hits. 0 \<le> idx" by fastforce
  from prepare_results_f32_map [OF search_f32_hits [OF assms] nonneg]
  have rs: "rs = map (\<lambda>(distance, idx). setitem (documents s ! nat idx) ''similarity_score''
                        (PFloat (score_f32 f32 distance))) ?hits"
    and inr: "\<forall>(distance, idx) \<in> set ?hits. nat idx < length (documents s)"
    by simp_all
  have sc: "map score_of rs = map (\<lambda>d. Some (score_f32 f32 d)) ?ds"
    unfolding rs by (simp add: score_of_setitem case_prod_beta)
  have each: "\<exists>i < ntotal (index s). i < length (documents s)
                  \<and> l2 (map f32 q) (xb (index s) ! i) = Some (?ds ! j)
                  \<and> rs ! j = setitem (documents s ! i) ''similarity_score''
                               (PFloat (score_f32 f32 (?ds ! j)))"
    if j: "j < length rs" for j
  proof -
    from j rs have jh: "j < length ?hits" by simp
    obtain distance idx where hit: "?hits ! j = (distance, idx)" by (cases "?hits ! j")
    with jh have inset: "(distance, idx) \<in> set ?hits" by (metis nth_mem)
    from mem [OF inset] obtain i where i: "i < ntotal (index s)" "idx = int i"
      "l2 (map f32 q) (xb (index s) ! i) = Some distance" by blast
    from inr inset i have "i < length (documents s)" by auto
    moreover from jh hit have "?ds ! j = distance" by simp
    moreover from jh hit i have "rs ! j = setitem (documents s ! i) ''similarity_score''
                               (PFloat (score_f32 f32 distance))"
      unfolding rs by simp
    ultimately show ?thesis using i by blast
  qed
  have desc: "sorted (rev (map (score_f32 f32) ?ds))" if "mono f32"
    using that srt by (rule scores_descend)
  show ?thesis
    unfolding Let_def using srt sc each desc by blast
qed

lemma search_f32_three_vectors:
  assumes stored: "mset (zip (xb (index s)) (documents s)) = {#(a, da), (b, db), (c, dc)#}"
    and len: "length (xb (index s)) = length (documents s)"
    and q: "length q = dim (index s)"
    and dist: "l2 (map f32 q) a = Some 0" "l2 (map f32 q) b = Some 1" "l2 (map f32 q) c = Some 4"
    and exact: "f32 0 = 0" "f32 (1 / 2) = 1 / 2" "f32 1 = 1" "f32 2 = 2" "f32 (- 1) = - 1"
    and ids: "map_of da ''id'' \<noteq> None" "map_of db ''id'' \<noteq> None" "map_of dc ''id'' \<noteq> None"
  shows "search_f32 f32 l2 s q 3 = Inr [setitem da ''similarity_score'' (PFloat 1),
                                       setitem db ''similarity_score'' (PFloat (1 / 2)),
                                       setitem dc ''similarity_score'' (PFloat (- 1))]"
proof -
  have xs: "xb (index s) = map fst (zip (xb (index s)) (documents s))"
    and ds: "documents s = map snd (zip (xb (index s)) (documents s))"
    using len by simp_all
  have s0: "score_f32 f32 0 = 1"
    using exact(1, 3) by (simp add: score_f32_def)
  have half: "1 - 1 / 2 = (1 / 2 :: rat)" by simp
  have s1: "score_f32 f32 1 = 1 / 2"
    unfolding score_f32_def by (simp only: exact(2) half)
  have two: "(4 :: rat) / 2 = 2" and neg: "1 - 2 = (- 1 :: rat)" by simp_all
  have s4: "score_f32 f32 4 = - 1"
    unfolding score_f32_def by (simp only: two exact(4) neg exact(5))
  have eval: "search_f32 f32 l2 s q 3 = Inr [setitem da ''similarity_score'' (PFloat 1),
                             setitem db ''similarity_score'' (PFloat (1 / 2)),
                             setitem dc ''similarity_score'' (PFloat (- 1))]"
    if "xb (index s) = xs" and "documents s = ds"
      and "(xs, ds) \<in>
        {([a, b, c], [da, db, dc]), ([a, c, b], [da, dc, db]), ([b, a, c], [db, da, dc]),
         ([b, c, a], [db, dc, da]), ([c, a, b], [dc, da, db]), ([c, b, a], [dc, db, da])}"
    for xs ds
    using that q dist ids
    by (auto simp: search_f32_def ntotal_def index_search_f32_def nearest_f32_def Let_def
        List.map_filter_simps list_getitem_def getitem_def map_of_setitem s0 s1 s4)
  from three_orders [OF stored] xs ds
  have "(xb (index s), documents s) \<in>
        {([a, b, c], [da, db, dc]), ([a, c, b], [da, dc, db]), ([b, a, c], [db, da, dc]),
         ([b, c, a], [db, dc, da]), ([c, a, b], [dc, da, db]), ([c, b, a], [dc, db, da])}"
    by auto
  then show ?thesis by (rule eval [OF refl refl])
qed

text \<open>
  C4, amended. A search that returns normally returns one result for each of the \<open>k\<close>
  smallest distances the library returned, in increasing order of that distance: the
  copy of the document at the position of a vector at that distance, with
  \<^verbatim>\<open>similarity_score\<close> set to 1 minus half the distance as binary32 computes it, not
  clamped; with a monotone rounding the scores fall along the list. And three stored
  vectors, stored in any order, for which the library returns the squared distances of
  the Euclidean distances 0, 1 and 2, come back in that order with the scores 1, 1/2
  and -1, which binary32 computes exactly.
\<close>

theorem search_nearest_first:
  "(search_f32 f32 l2 s q k = Inr rs \<longrightarrow>
      (let distances = map fst (take (nat k) (nearest_f32 l2 (index s) (map f32 q)))
       in sorted distances
          \<and> map score_of rs = map (\<lambda>d. Some (score_f32 f32 d)) distances
          \<and> (\<forall>j < length rs. \<exists>i < ntotal (index s). i < length (documents s)
                \<and> l2 (map f32 q) (xb (index s) ! i) = Some (distances ! j)
                \<and> rs ! j = setitem (documents s ! i) ''similarity_score''
                             (PFloat (score_f32 f32 (distances ! j))))
          \<and> (mono f32 \<longrightarrow> sorted (rev (map (score_f32 f32) distances)))))
   \<and> (mset (zip (xb (index s)) (documents s)) = {#(a, da), (b, db), (c, dc)#}
        \<and> length (xb (index s)) = length (documents s)
        \<and> length q = dim (index s)
        \<and> l2 (map f32 q) a = Some (0\<^sup>2) \<and> l2 (map f32 q) b = Some (1\<^sup>2)
        \<and> l2 (map f32 q) c = Some (2\<^sup>2)
        \<and> f32 0 = 0 \<and> f32 (1 / 2) = 1 / 2 \<and> f32 1 = 1 \<and> f32 2 = 2 \<and> f32 (- 1) = - 1
        \<and> map_of da ''id'' \<noteq> None \<and> map_of db ''id'' \<noteq> None \<and> map_of dc ''id'' \<noteq> None
      \<longrightarrow> search_f32 f32 l2 s q 3 = Inr [setitem da ''similarity_score'' (PFloat 1),
                                           setitem db ''similarity_score'' (PFloat (1 / 2)),
                                           setitem dc ''similarity_score'' (PFloat (- 1))])"
proof (intro conjI impI)
  assume "search_f32 f32 l2 s q k = Inr rs"
  then show "let distances = map fst (take (nat k) (nearest_f32 l2 (index s) (map f32 q)))
       in sorted distances
          \<and> map score_of rs = map (\<lambda>d. Some (score_f32 f32 d)) distances
          \<and> (\<forall>j < length rs. \<exists>i < ntotal (index s). i < length (documents s)
                \<and> l2 (map f32 q) (xb (index s) ! i) = Some (distances ! j)
                \<and> rs ! j = setitem (documents s ! i) ''similarity_score''
                             (PFloat (score_f32 f32 (distances ! j))))
          \<and> (mono f32 \<longrightarrow> sorted (rev (map (score_f32 f32) distances)))"
    by (rule search_f32_characterised)
next
  assume "mset (zip (xb (index s)) (documents s)) = {#(a, da), (b, db), (c, dc)#}
        \<and> length (xb (index s)) = length (documents s)
        \<and> length q = dim (index s)
        \<and> l2 (map f32 q) a = Some (0\<^sup>2) \<and> l2 (map f32 q) b = Some (1\<^sup>2)
        \<and> l2 (map f32 q) c = Some (2\<^sup>2)
        \<and> f32 0 = 0 \<and> f32 (1 / 2) = 1 / 2 \<and> f32 1 = 1 \<and> f32 2 = 2 \<and> f32 (- 1) = - 1
        \<and> map_of da ''id'' \<noteq> None \<and> map_of db ''id'' \<noteq> None \<and> map_of dc ''id'' \<noteq> None"
  then show "search_f32 f32 l2 s q 3 = Inr [setitem da ''similarity_score'' (PFloat 1),
                                           setitem db ''similarity_score'' (PFloat (1 / 2)),
                                           setitem dc ''similarity_score'' (PFloat (- 1))]"
    by (intro search_f32_three_vectors) auto
qed

text \<open>
  C4, amended, where binary32 is exact. Of four vectors stored in no order, one of them
  beyond the range of binary32, a search for four returns the other three, nearest first;
  the three vectors in the plane come back with the scores 1, 1/2 and -1.
\<close>

theorem search_nearest_first_witness:
  "search_f32 (\<lambda>x. x) exact_l2 beyond_vectors [0, 0] 4 =
     Inr [[(''id'', PStr ''here''), (''similarity_score'', PFloat 1)],
          [(''id'', PStr ''near''), (''similarity_score'', PFloat (1 / 2))],
          [(''id'', PStr ''far''), (''similarity_score'', PFloat (- 1))]]
   \<and> map fst (take 4 (nearest_f32 exact_l2 (index beyond_vectors) [0, 0])) = [0, 1, 4]
   \<and> mono (\<lambda>x :: rat. x)
   \<and> search_f32 (\<lambda>x. x) exact_l2 plane_vectors [0, 0] 3 =
     Inr [[(''id'', PStr ''here''), (''similarity_score'', PFloat 1)],
          [(''id'', PStr ''near''), (''similarity_score'', PFloat (1 / 2))],
          [(''id'', PStr ''far''), (''similarity_score'', PFloat (- 1))]]"
proof -
  have run: "search_f32 (\<lambda>x. x) exact_l2 beyond_vectors [0, 0] 4 =
     Inr [[(''id'', PStr ''here''), (''similarity_score'', PFloat 1)],
          [(''id'', PStr ''near''), (''similarity_score'', PFloat (1 / 2))],
          [(''id'', PStr ''far''), (''similarity_score'', PFloat (- 1))]]"
    by (simp add: search_f32_def beyond_vectors_def ntotal_def index_search_f32_def
        nearest_f32_def exact_l2_def L2sqr_def FLT_MAX_def List.map_filter_simps Let_def
        list_getitem_def getitem_def score_f32_def)
  have near: "map fst (take 4 (nearest_f32 exact_l2 (index beyond_vectors) [0, 0])) = [0, 1, 4]"
    by (simp add: beyond_vectors_def nearest_f32_def exact_l2_def L2sqr_def FLT_MAX_def
        List.map_filter_simps)
  have mono: "mono (\<lambda>x :: rat. x)"
    by (simp add: mono_def)
  have three: "search_f32 (\<lambda>x. x) exact_l2 plane_vectors [0, 0] 3 =
     Inr [[(''id'', PStr ''here''), (''similarity_score'', PFloat 1)],
          [(''id'', PStr ''near''), (''similarity_score'', PFloat (1 / 2))],
          [(''id'', PStr ''far''), (''similarity_score'', PFloat (- 1))]]"
    using search_nearest_first [of "\<lambda>x. x" exact_l2 plane_vectors "[0, 0]" 3 "[]"
        "[0, 0]" "[(''id'', PStr ''here'')]" "[1, 0]" "[(''id'', PStr ''near'')]"
        "[0, 2]" "[(''id'', PStr ''far'')]"]
    by (simp add: plane_vectors_def exact_l2_def L2sqr_def FLT_MAX_def)
  from search_nearest_first [of "\<lambda>x. x" exact_l2 beyond_vectors "[0, 0]" 4
      "[[(''id'', PStr ''here''), (''similarity_score'', PFloat 1)],
          [(''id'', PStr ''near''), (''similarity_score'', PFloat (1 / 2))],
          [(''id'', PStr ''far''), (''similarity_score'', PFloat (- 1))]]"] run near mono three
  show ?thesis by simp
qed

section \<open>The retry loop\<close>

text \<open>The loop with its constants, unrolled: three attempts, a pause after the first two.\<close>

lemma retry_loop_three:
  "retry_loop create 3 0 2 [] =
     (case create 0 of
        Returned a \<Rightarrow> (Some a, 1, [])
      | Raised e0 \<Rightarrow>
          (case create 1 of
             Returned a \<Rightarrow> (Some a, 2, [2])
           | Raised e1 \<Rightarrow>
               (case create 2 of
                  Returned a \<Rightarrow> (Some a, 3, [2, 4])
                | Raised e2 \<Rightarrow> (Some (''Error generating answer: '' @ e2), 3, [2, 4]))))"
proof -
  have third: "retry_loop create 3 2 8 [2, 4] =
      (case create 2 of
         Returned a \<Rightarrow> (Some a, 3, [2, 4])
       | Raised e2 \<Rightarrow> (Some (''Error generating answer: '' @ e2), 3, [2, 4]))"
    by (subst retry_loop.simps) (simp add: numeral_3_eq_3 split: outcome.split)
  have second: "retry_loop create 3 1 4 [2] =
      (case create 1 of
         Returned a \<Rightarrow> (Some a, 2, [2])
       | Raised e1 \<Rightarrow> retry_loop create 3 2 8 [2, 4])"
    by (subst retry_loop.simps) (simp add: numeral_2_eq_2 split: outcome.split)
  have first: "retry_loop create 3 0 2 [] =
      (case create 0 of
         Returned a \<Rightarrow> (Some a, 1, [])
       | Raised e0 \<Rightarrow> retry_loop create 3 1 4 [2])"
    by (subst retry_loop.simps) (simp split: outcome.split)
  show ?thesis
    unfolding first second third ..
qed

text \<open>
  C7 as stated fails at the delays. When all three invocations fail the function has
  slept 2 and 4 seconds, between the first and the second and between the second and the
  third attempt; after the third failure it returns at once, and no delay of 8 seconds
  is ever slept.
\<close>

theorem retry_backoff_counterexample:
  "generate_answer_from_results (\<lambda>n. Raised ''timeout'') []
     = Inr (Some ''Error generating answer: timeout'', 3, [2, 4])
   \<and> snd (snd (projr (generate_answer_from_results (\<lambda>n. Raised ''timeout'') []))) \<noteq> [2, 4, 8]"
  by (simp add: generate_answer_from_results_def retry_loop_three)

text \<open>
  C7, amended. Once the prompt is built, the function returns a string after at least
  one and at most three invocations, having slept 2 seconds after a first failure and
  4 seconds after a second one and nothing else. Two failures and a success are three
  invocations and the successful answer; three failures are three invocations and the
  string that embeds the last error, not an exception.
\<close>

theorem retry_three_attempts:
  assumes "build_context results = Inr context"
  shows "case generate_answer_from_results create results of
           Inl e \<Rightarrow> False
         | Inr (answer, calls, slept) \<Rightarrow>
             answer \<noteq> None \<and> 1 \<le> calls \<and> calls \<le> 3 \<and> slept = take (calls - 1) [2, 4]
             \<and> (\<forall>e0 e1 a. create 0 = Raised e0 \<and> create 1 = Raised e1 \<and> create 2 = Returned a
                   \<longrightarrow> answer = Some a \<and> calls = 3 \<and> slept = [2, 4])
             \<and> (\<forall>e0 e1 e2. create 0 = Raised e0 \<and> create 1 = Raised e1 \<and> create 2 = Raised e2
                   \<longrightarrow> answer = Some (''Error generating answer: '' @ e2) \<and> calls = 3
                       \<and> slept = [2, 4])"
proof -
  have two: "create 2 = create (Suc (Suc 0))"
    by (simp add: numeral_2_eq_2)
  show ?thesis
    using assms unfolding two
    by (auto simp: generate_answer_from_results_def retry_loop_three split: outcome.split)
qed

text \<open>C7, amended, at a collaborator that fails twice and then answers.\<close>

theorem retry_three_attempts_witness:
  "generate_answer_from_results
     (\<lambda>n. if n < 2 then Raised ''rate limit'' else Returned ''forty-two'')
     [[(''id'', PStr ''a''), (''text'', PStr ''t''), (''similarity_score'', PFloat (1 / 2))]]
   = Inr (Some ''forty-two'', 3, [2, 4])"
proof -
  have ctx: "build_context
      [[(''id'', PStr ''a''), (''text'', PStr ''t''), (''similarity_score'', PFloat (1 / 2))]]
      = Inr [(PFloat (1 / 2), PStr ''t'')]"
    by (simp add: getitem_def)
  from retry_three_attempts [OF ctx,
      of "\<lambda>n. if n < 2 then Raised ''rate limit'' else Returned ''forty-two''"]
  show ?thesis
    by (auto split: sum.splits)
qed

section \<open>The JSON normalizer on a sequence\<close>

text \<open>
  C8 at the input \<^verbatim>\<open>[["a"]]\<close>, a sequence whose one element is a sequence. The branch
  for a top-level sequence serialises an element only when it is a mapping; every other
  element, a nested sequence too, goes through \<^verbatim>\<open>str\<close>, which writes Python's
  \<^verbatim>\<open>['a']\<close> where JSON has \<^verbatim>\<open>["a"]\<close>. The branch for a top-level mapping serialises
  the same nested value.
\<close>

theorem process_json_list_in_list:
  "process_json_data (JList [JList [JStr ''a'']]) =
     [[(''id'', PStr ''json_0''),
       (''text'', PStr [CHR ''['', CHR 0x27, CHR ''a'', CHR 0x27, CHR '']'']),
       (''metadata'', PDict [(''source'', PStr ''json''), (''index'', PInt 0),
                             (''original'', PList [PStr ''a''])])]]
   \<and> json_dumps (JList [JStr ''a'']) = [CHR ''['', CHR 0x22, CHR ''a'', CHR 0x22, CHR '']'']
   \<and> map (\<lambda>doc. map_of doc ''text'') (process_json_data (JList [JList [JStr ''a'']]))
       \<noteq> [Some (PStr (json_dumps (JList [JStr ''a''])))]
   \<and> map (\<lambda>doc. map_of doc ''text'') (process_json_data (JDict [(''k'', JList [JStr ''a''])]))
       = [Some (PStr (json_dumps (JList [JStr ''a''])))]
   \<and> process_json (\<lambda>content. Inr (JList [JList [JStr ''a'']]))
         [CHR ''['', CHR ''['', CHR 0x22, CHR ''a'', CHR 0x22, CHR '']'', CHR '']'']
       = Inr (process_json_data (JList [JList [JStr ''a'']]))"
  by (simp add: process_json_data_def process_json_item_def process_json_entry_def
      process_json_def str_def repr_string_def repr_char_def json_string_def
      json_escape_char_def digit_char_def Let_def)

section \<open>What a search shares with its caller\<close>

lemma setitem_twice: "setitem (setitem kvs k v) k w = setitem kvs k w"
  by (induction kvs k v rule: setitem.induct) auto

lemma obj_copy_new:
  assumes "obj_copy h a = Inr (doc, h1)"
  shows "doc = length h \<and> h1 = h @ [h ! a] \<and> a < length h"
  using assms by (auto simp: obj_copy_def alloc_def split: if_splits)

lemma obj_setitem_last:
  assumes "obj_setitem (h @ [ob]) (length h) k v = Inr h2"
  shows "\<exists>kvs. ob = DictObj kvs \<and> h2 = h @ [DictObj (setitem kvs k v)]"
  using assms by (auto simp: obj_setitem_def split: obj.splits)

text \<open>One round of the loop that gets as far as the recursive call.\<close>

lemma prepare_results_refs_step:
  assumes "prepare_results_refs h docs ((distance, idx) # hits) = (r, h')" and "idx \<noteq> - 1"
  shows "(\<exists>e. r = Inl e \<and> (h' = h \<or> (\<exists>ob. h' = h @ [ob])))
         \<or> (\<exists>stored kvs r3.
               list_getitem docs idx = Inr stored \<and> stored < length h \<and> h ! stored = DictObj kvs
               \<and> prepare_results_refs
                    (h @ [DictObj (setitem kvs ''similarity_score'' (VFloat (1 - distance / 2)))])
                    docs hits = (r3, h')
               \<and> r = (case r3 of Inl e \<Rightarrow> Inl e | Inr results \<Rightarrow> Inr (length h # results)))"
proof (cases "list_getitem docs idx")
  case (Inl e)
  with assms show ?thesis by auto
next
  case got: (Inr stored)
  show ?thesis
  proof (cases "obj_copy h stored")
    case (Inl e)
    with assms got show ?thesis by auto
  next
    case (Inr p)
    then obtain doc h1 where p: "obj_copy h stored = Inr (doc, h1)" by (cases p) auto
    from obj_copy_new [OF p] have doc: "doc = length h" and h1: "h1 = h @ [h ! stored]"
      and stored: "stored < length h" by simp_all
    show ?thesis
    proof (cases "obj_setitem h1 doc ''similarity_score'' (VFloat (1 - distance / 2))")
      case (Inl e)
      with assms got p h1 show ?thesis by auto
    next
      case set: (Inr h2)
      with doc h1 have "obj_setitem (h @ [h ! stored]) (length h) ''similarity_score''
          (VFloat (1 - distance / 2)) = Inr h2"
        by simp
      from obj_setitem_last [OF this] obtain kvs where kvs: "h ! stored = DictObj kvs"
        and h2: "h2 = h @ [DictObj (setitem kvs ''similarity_score'' (VFloat (1 - distance / 2)))]"
        by blast
      show ?thesis
      proof (cases "obj_getitem h2 doc ''id''")
        case (Inl e)
        with assms got p set h2 show ?thesis by auto
      next
        case (Inr v)
        obtain r3 h3 where rec: "prepare_results_refs h2 docs hits = (r3, h3)"
          by (cases "prepare_results_refs h2 docs hits")
        with assms got p set Inr have "h' = h3"
          and "r = (case r3 of Inl e \<Rightarrow> Inl e | Inr results \<Rightarrow> Inr (doc # results))"
          by (auto split: sum.splits)
        with rec got stored kvs h2 doc show ?thesis by auto
      qed
    qed
  qed
qed

text \<open>The loop only allocates: the heap after it is the heap before it, with new objects.\<close>

lemma prepare_results_refs_extends:
  assumes "prepare_results_refs h docs hits = (r, h')"
  shows "\<exists>new. h' = h @ new"
  using assms
proof (induction hits arbitrary: h r h')
  case Nil
  then show ?case by simp
next
  case (Cons hit hits)
  obtain distance idx where hit: "hit = (distance, idx)" by (cases hit)
  show ?case
  proof (cases "idx = - 1")
    case True
    with Cons.prems hit have "prepare_results_refs h docs hits = (r, h')" by simp
    from Cons.IH [OF this] show ?thesis .
  next
    case False
    from prepare_results_refs_step [OF Cons.prems [unfolded hit] False]
    consider "h' = h \<or> (\<exists>ob. h' = h @ [ob])"
      | kvs r3 where "prepare_results_refs
                (h @ [DictObj (setitem kvs ''similarity_score'' (VFloat (1 - distance / 2)))])
                docs hits = (r3, h')"
      by blast
    then show ?thesis
    proof cases
      case 1
      then show ?thesis by auto
    next
      case 2
      from Cons.IH [OF this] show ?thesis by auto
    qed
  qed
qed

text \<open>
  The results are new objects, each the dictionary of a stored document with the score
  set, entry for entry.
\<close>

lemma prepare_results_refs_results:
  assumes "prepare_results_refs h docs hits = (Inr results, h')"
  shows "distinct results
         \<and> (\<forall>a \<in> set results. length h \<le> a \<and> a < length h'
               \<and> (\<exists>stored \<in> set docs. \<exists>kvs x. stored < length h \<and> h ! stored = DictObj kvs
                     \<and> h' ! a = DictObj (setitem kvs ''similarity_score'' (VFloat x))))"
  using assms
proof (induction hits arbitrary: h results h')
  case Nil
  then show ?case by simp
next
  case (Cons hit hits)
  obtain distance idx where hit: "hit = (distance, idx)" by (cases hit)
  show ?case
  proof (cases "idx = - 1")
    case True
    with Cons.prems hit have "prepare_results_refs h docs hits = (Inr results, h')" by simp
    from Cons.IH [OF this] show ?thesis .
  next
    case False
    from prepare_results_refs_step [OF Cons.prems [unfolded hit] False]
    obtain stored kvs r3 where
      got: "list_getitem docs idx = Inr stored" and stored: "stored < length h"
      and kvs: "h ! stored = DictObj kvs"
      and rec: "prepare_results_refs
                  (h @ [DictObj (setitem kvs ''similarity_score'' (VFloat (1 - distance / 2)))])
                  docs hits = (r3, h')"
      and r: "Inr results = (case r3 of Inl e \<Rightarrow> Inl e | Inr rest \<Rightarrow> Inr (length h # rest))"
      by auto
    let ?h2 = "h @ [DictObj (setitem kvs ''similarity_score'' (VFloat (1 - distance / 2)))]"
    from r obtain rest where r3: "r3 = Inr rest" and results: "results = length h # rest"
      by (cases r3) auto
    from got have indocs: "stored \<in> set docs"
      by (auto simp: list_getitem_def split: if_splits)
    from prepare_results_refs_extends [OF rec] obtain new where h': "h' = ?h2 @ new" ..
    from Cons.IH [OF rec [unfolded r3]] have
      dist: "distinct rest"
      and each: "\<forall>a \<in> set rest. length ?h2 \<le> a \<and> a < length h'
                   \<and> (\<exists>stored \<in> set docs. \<exists>kvs x. stored < length ?h2 \<and> ?h2 ! stored = DictObj kvs
                         \<and> h' ! a = DictObj (setitem kvs ''similarity_score'' (VFloat x)))"
      by simp_all
    have fresh: "length h \<notin> set rest"
      using each by auto
    have first: "h' ! length h = DictObj (setitem kvs ''similarity_score''
                  (VFloat (1 - distance / 2)))"
      using h' by (simp add: nth_append)
    have others: "\<exists>stored \<in> set docs. \<exists>kvs x. stored < length h \<and> h ! stored = DictObj kvs
                         \<and> h' ! a = DictObj (setitem kvs ''similarity_score'' (VFloat x))"
      if "a \<in> set rest" for a
    proof -
      from each that obtain st kv x where st: "st \<in> set docs" "st < length ?h2"
        "?h2 ! st = DictObj kv" "h' ! a = DictObj (setitem kv ''similarity_score'' (VFloat x))"
        by blast
      show ?thesis
      proof (cases "st < length h")
        case True
        then have "?h2 ! st = h ! st" by (simp add: nth_append)
        with st True show ?thesis by auto
      next
        case False
        with st have "st = length h" by simp
        with st have "kv = setitem kvs ''similarity_score'' (VFloat (1 - distance / 2))"
          by simp
        then have "h' ! a = DictObj (setitem kvs ''similarity_score'' (VFloat x))"
          using st(4) by (simp add: setitem_twice)
        with indocs stored kvs show ?thesis by blast
      qed
    qed
    have here: "length h < length h'" using h' by simp
    have bounds: "\<forall>a \<in> set rest. length h \<le> a \<and> a < length h'"
      using each by auto
    show ?thesis
      unfolding results
      using dist fresh first others indocs stored kvs here bounds by auto
  qed
qed

text \<open>
  C9 as stated fails at the metadata. The result of a search over the example heap is a
  new dictionary at address 2 whose \<^verbatim>\<open>metadata\<close> entry is the reference that the stored
  document holds. The caller's \<^verbatim>\<open>results[0]['metadata']['source'] = 'changed'\<close> is an
  assignment into the object at address 0, and the stored document reads differently
  afterwards.
\<close>

theorem search_result_alias_counterexample:
  "search_refs heap_example \<lparr>dim = 1, xb = [[0]]\<rparr> [1] [0] 5 =
     (Inr [2],
      [DictObj [(''source'', VStr ''json'')],
       DictObj [(''id'', VStr ''a''), (''text'', VStr ''t''), (''metadata'', Ref 0)],
       DictObj [(''id'', VStr ''a''), (''text'', VStr ''t''), (''metadata'', Ref 0),
                (''similarity_score'', VFloat 1)]])
   \<and> obj_getitem (snd (search_refs heap_example \<lparr>dim = 1, xb = [[0]]\<rparr> [1] [0] 5)) 2 ''metadata''
       = Inr (Ref 0)
   \<and> document_at 2 (snd (search_refs heap_example \<lparr>dim = 1, xb = [[0]]\<rparr> [1] [0] 5)) 1
       = Some [(''id'', PStr ''a''), (''text'', PStr ''t''),
               (''metadata'', PDict [(''source'', PStr ''json'')])]
   \<and> map_sum id (\<lambda>h. document_at 2 h 1)
         (obj_setitem (snd (search_refs heap_example \<lparr>dim = 1, xb = [[0]]\<rparr> [1] [0] 5)) 0
            ''source'' (VStr ''changed''))
       = Inr (Some [(''id'', PStr ''a''), (''text'', PStr ''t''),
                    (''metadata'', PDict [(''source'', PStr ''changed'')])])"
  by (simp add: heap_example_def search_refs_def ntotal_def index_search_def nearest_def
      L2sqr_def Let_def list_getitem_def obj_copy_def alloc_def obj_setitem_def obj_getitem_def
      getitem_def document_at_def numeral_2_eq_2)

text \<open>
  C9, amended. A search leaves every object that existed before it as it was, so no
  stored document changes or acquires a score. The documents it returns are new objects,
  different from each other: each is the dictionary of a stored document with
  \<^verbatim>\<open>similarity_score\<close> set, its other entries being the entries of the stored
  dictionary, references included. An assignment to a key of a returned document
  leaves every object that existed before the search as it was.
\<close>

theorem search_refs_shallow_copies:
  assumes "search_refs h idx docs q k = (r, h')"
  shows "length h \<le> length h' \<and> take (length h) h' = h
         \<and> (\<forall>results. r = Inr results \<longrightarrow>
               distinct results
               \<and> (\<forall>a \<in> set results. length h \<le> a \<and> a < length h'
                     \<and> (\<exists>stored \<in> set docs. \<exists>kvs x. stored < length h \<and> h ! stored = DictObj kvs
                           \<and> h' ! a = DictObj (setitem kvs ''similarity_score'' (VFloat x)))
                     \<and> (\<forall>key v h''. obj_setitem h' a key v = Inr h'' \<longrightarrow>
                           length h \<le> length h'' \<and> take (length h) h'' = h)))"
proof -
  have ext: "\<exists>new. h' = h @ new"
  proof (cases "ntotal idx = 0")
    case True
    with assms show ?thesis by (simp add: search_refs_def)
  next
    case False
    show ?thesis
    proof (cases "index_search idx q (min k (int (ntotal idx)))")
      case (Inl e)
      with assms False show ?thesis by (simp add: search_refs_def Let_def)
    next
      case (Inr hits)
      with assms False have "prepare_results_refs h docs hits = (r, h')"
        by (simp add: search_refs_def Let_def)
      then show ?thesis by (rule prepare_results_refs_extends)
    qed
  qed
  then obtain new where h': "h' = h @ new" ..
  have res: "distinct results
         \<and> (\<forall>a \<in> set results. length h \<le> a \<and> a < length h'
               \<and> (\<exists>stored \<in> set docs. \<exists>kvs x. stored < length h \<and> h ! stored = DictObj kvs
                     \<and> h' ! a = DictObj (setitem kvs ''similarity_score'' (VFloat x))))"
    if r: "r = Inr results" for results
  proof (cases "ntotal idx = 0")
    case True
    with assms r show ?thesis by (simp add: search_refs_def)
  next
    case False
    show ?thesis
    proof (cases "index_search idx q (min k (int (ntotal idx)))")
      case (Inl e)
      with assms False r show ?thesis by (simp add: search_refs_def Let_def)
    next
      case (Inr hits)
      with assms False r have "prepare_results_refs h docs hits = (Inr results, h')"
        by (simp add: search_refs_def Let_def)
      then show ?thesis by (rule prepare_results_refs_results)
    qed
  qed
  have top: "length h \<le> length h'' \<and> take (length h) h'' = h"
    if "length h \<le> a" and "obj_setitem h' a key v = Inr h''" for a key v h''
    using that h' by (auto simp: obj_setitem_def split: if_splits obj.splits)
  show ?thesis
    using h' res top by (simp, blast)
qed

text \<open>
  C9, amended, at the example heap: the result is the new object at address 2, and
  replacing its text leaves the two old objects alone.
\<close>

theorem search_refs_shallow_copies_witness:
  "search_refs heap_example \<lparr>dim = 1, xb = [[0]]\<rparr> [1] [0] 5 =
     (Inr [2],
      heap_example @ [DictObj [(''id'', VStr ''a''), (''text'', VStr ''t''), (''metadata'', Ref 0),
                               (''similarity_score'', VFloat 1)]])
   \<and> take 2 (heap_example @ [DictObj [(''id'', VStr ''a''), (''text'', VStr ''t''),
                                      (''metadata'', Ref 0), (''similarity_score'', VFloat 1)]])
       = heap_example
   \<and> map_sum id (take 2)
        (obj_setitem
           (heap_example @ [DictObj [(''id'', VStr ''a''), (''text'', VStr ''t''),
                                     (''metadata'', Ref 0), (''similarity_score'', VFloat 1)]])
           2 ''text'' (VStr ''changed''))
       = Inr heap_example"
proof -
  have run: "search_refs heap_example \<lparr>dim = 1, xb = [[0]]\<rparr> [1] [0] 5 =
     (Inr [2],
      heap_example @ [DictObj [(''id'', VStr ''a''), (''text'', VStr ''t''), (''metadata'', Ref 0),
                               (''similarity_score'', VFloat 1)]])"
    by (simp add: heap_example_def search_refs_def ntotal_def index_search_def nearest_def
        L2sqr_def Let_def list_getitem_def obj_copy_def alloc_def obj_setitem_def obj_getitem_def
        getitem_def)
  have len: "length heap_example = 2"
    by (simp add: heap_example_def)
  from search_refs_shallow_copies [OF run] len show ?thesis
    using run by (auto simp: obj_setitem_def heap_example_def)
qed

section \<open>The index and the document list stay parallel\<close>

text \<open>The constructor either takes both files or neither.\<close>

lemma init_files: "index_file (init n p q fs) = p \<and> data_file (init n p q fs) = q"
  by (simp add: init_def create_new_index_def Let_def split: sum.splits)

lemma init_loaded:
  assumes "read_index fs p = Inr idx" and "pickle_load fs q = Inr docs"
  shows "init n p q fs = \<lparr>dimension = n, index_file = p, data_file = q, index = idx,
                           documents = docs\<rparr>"
  using assms
  by (auto simp: init_def exists_def read_index_def pickle_load_def Let_def
      split: option.splits file_content.splits)

lemma init_not_loaded:
  assumes "\<not> loadable fs p q"
  shows "init n p q fs = fresh_store n p q"
  using assms
  by (auto simp: init_def loadable_def create_new_index_def fresh_store_def Let_def
      split: sum.splits)










section \<open>Searching after a restart\<close>

text \<open>\<^verbatim>\<open>search\<close> reads the index and the documents and nothing else of the store.\<close>

lemma search_same_contents:
  assumes "index s = index s'" and "documents s = documents s'"
  shows "search s query k = search s' query k"
  unfolding search_def assms ..

lemma search_empty: "ntotal (index s) = 0 \<Longrightarrow> search s query k = Inr []"
  by (simp add: search_def)

text \<open>A second constructor on the same disk finds what the first one found.\<close>

lemma init_twice:
  "search (init n' p q fs) query k = search (init n p q fs) query k"
proof (cases "loadable fs p q")
  case True
  then obtain idx docs where "read_index fs p = Inr idx" "pickle_load fs q = Inr docs"
    by (auto simp: loadable_def split: sum.splits)
  then have "index (init n' p q fs) = index (init n p q fs)"
    and "documents (init n' p q fs) = documents (init n p q fs)"
    by (simp_all add: init_loaded)
  then show ?thesis by (rule search_same_contents)
next
  case False
  then show ?thesis
    by (simp add: init_not_loaded fresh_store_def IndexFlatL2_def ntotal_def search_empty)
qed

text \<open>
  After an addition that returns, the two files, when they are two, hold the index and
  the documents of the store.
\<close>

lemma add_vector_saved:
  assumes "add_vector s fs v doc = (None, s', fs')" and "index_file s \<noteq> data_file s"
  shows "index_file s' = index_file s \<and> data_file s' = data_file s
         \<and> read_index fs' (index_file s) = Inr (index s')
         \<and> pickle_load fs' (data_file s) = Inr (documents s')"
proof -
  from assms(1) have "length v = dim (index s)"
    by (auto simp: add_vector_def index_add_def split: if_splits)
  with assms(1) have s': "s' = s\<lparr>index := (index s)\<lparr>xb := xb (index s) @ [v]\<rparr>,
                                  documents := documents s @ [doc]\<rparr>"
    and fs': "fs' = save s' fs"
    by (auto simp: add_vector_def index_add_def Let_def split: sum.splits)
  from assms(2) show ?thesis
    unfolding fs' unfolding s'
    by (simp add: save_def read_index_def pickle_load_def)
qed

lemma add_all_saved:
  assumes "add_all s0 fs0 items = Some (s, fs)" and "index_file s0 \<noteq> data_file s0"
    and "items \<noteq> [] \<or> (read_index fs0 (index_file s0) = Inr (index s0)
                          \<and> pickle_load fs0 (data_file s0) = Inr (documents s0))"
  shows "index_file s = index_file s0 \<and> data_file s = data_file s0
         \<and> read_index fs (index_file s0) = Inr (index s)
         \<and> pickle_load fs (data_file s0) = Inr (documents s)"
  using assms
proof (induction items arbitrary: s0 fs0)
  case Nil
  then show ?case by simp
next
  case (Cons item items)
  obtain v doc where item: "item = (v, doc)" by (cases item)
  with Cons.prems(1) obtain s1 fs1 where
    one: "add_vector s0 fs0 v doc = (None, s1, fs1)" and rest: "add_all s1 fs1 items = Some (s, fs)"
    by (auto split: prod.splits option.splits)
  from add_vector_saved [OF one Cons.prems(2)]
  have keep: "index_file s1 = index_file s0" "data_file s1 = data_file s0"
    and saved: "read_index fs1 (index_file s0) = Inr (index s1)"
      "pickle_load fs1 (data_file s0) = Inr (documents s1)"
    by simp_all
  from Cons.IH [OF rest] keep saved Cons.prems(2) show ?case by simp
qed

text \<open>
  C3. A store is constructed over two files and any number of additions return normally.
  A store constructed afterwards over the same two files answers every query, for every
  \<open>k\<close>, as the first store does: the same result list, the same exception if there
  is one.
\<close>

theorem restart_preserves_search:
  assumes "p \<noteq> q" and "add_all (init n p q fs0) fs0 items = Some (s, fs)"
  shows "search (init n' p q fs) query k = search s query k"
proof (cases items)
  case Nil
  with assms(2) have "s = init n p q fs0" "fs = fs0" by auto
  then show ?thesis by (simp add: init_twice)
next
  case (Cons item rest)
  then have "items \<noteq> []" by simp
  with add_all_saved [OF assms(2)] assms(1) init_files [of n p q fs0]
  have "read_index fs p = Inr (index s)" "pickle_load fs q = Inr (documents s)"
    by simp_all
  then have "init n' p q fs =
      \<lparr>dimension = n', index_file = p, data_file = q, index = index s, documents = documents s\<rparr>"
    by (rule init_loaded)
  then have "index (init n' p q fs) = index s" and "documents (init n' p q fs) = documents s"
    by simp_all
  then show ?thesis by (rule search_same_contents)
qed

text \<open>
  C3 at a fresh store of dimension 1 and two additions: the restarted store returns the
  two documents nearest first, with the scores of the first store.
\<close>

theorem restart_preserves_search_witness:
  "add_all (init 1 ''vector_index.faiss'' ''vector_data.pkl'' Map.empty) Map.empty
     [([2], [(''id'', PStr ''c'')]), ([0], [(''id'', PStr ''a'')])]
   = Some (\<lparr>dimension = 1, index_file = ''vector_index.faiss'', data_file = ''vector_data.pkl'',
             index = \<lparr>dim = 1, xb = [[2], [0]]\<rparr>,
             documents = [[(''id'', PStr ''c'')], [(''id'', PStr ''a'')]]\<rparr>,
           (Map.empty(''vector_index.faiss'' \<mapsto> IndexBytes \<lparr>dim = 1, xb = [[2], [0]]\<rparr>))
             (''vector_data.pkl'' \<mapsto> PickleBytes [[(''id'', PStr ''c'')], [(''id'', PStr ''a'')]]))
   \<and> search (init 1 ''vector_index.faiss'' ''vector_data.pkl''
        ((Map.empty(''vector_index.faiss'' \<mapsto> IndexBytes \<lparr>dim = 1, xb = [[2], [0]]\<rparr>))
             (''vector_data.pkl'' \<mapsto> PickleBytes [[(''id'', PStr ''c'')], [(''id'', PStr ''a'')]])))
        [0] 2
     = Inr [[(''id'', PStr ''a''), (''similarity_score'', PFloat 1)],
            [(''id'', PStr ''c''), (''similarity_score'', PFloat (- 1))]]"
proof -
  let ?s = "\<lparr>dimension = 1, index_file = ''vector_index.faiss'', data_file = ''vector_data.pkl'',
             index = \<lparr>dim = 1, xb = [[2], [0]]\<rparr>,
             documents = [[(''id'', PStr ''c'')], [(''id'', PStr ''a'')]]\<rparr>"
  let ?fs = "(Map.empty(''vector_index.faiss'' \<mapsto> IndexBytes \<lparr>dim = 1, xb = [[2], [0]]\<rparr>))
             (''vector_data.pkl'' \<mapsto> PickleBytes [[(''id'', PStr ''c'')], [(''id'', PStr ''a'')]])"
  have paths: "''vector_index.faiss'' \<noteq> ''vector_data.pkl''" by simp
  have run: "add_all (init 1 ''vector_index.faiss'' ''vector_data.pkl'' Map.empty) Map.empty
     [([2], [(''id'', PStr ''c'')]), ([0], [(''id'', PStr ''a'')])] = Some (?s, ?fs)"
    by (simp add: init_def exists_def create_new_index_def IndexFlatL2_def add_vector_def
        index_add_def getitem_def save_def Let_def fun_eq_iff)
  have before: "search ?s [0] 2
     = Inr [[(''id'', PStr ''a''), (''similarity_score'', PFloat 1)],
            [(''id'', PStr ''c''), (''similarity_score'', PFloat (- 1))]]"
    by (simp add: search_def ntotal_def index_search_def nearest_def L2sqr_def Let_def
        list_getitem_def getitem_def)
  from restart_preserves_search [OF paths run, of 1 "[0]" 2] run before
  show ?thesis by simp
qed

section \<open>The search over objects reads as the search over values\<close>

text \<open>
  The two models of \<^verbatim>\<open>search\<close> agree: when the stored references read as the documents
  of the store, the search over the heap raises what the search over values raises, or
  returns references that read, in the heap it leaves, as the documents that the search
  over values returns. Reading is monotone in the heap, and a copy with the score set
  reads as the document with the score set.
\<close>

lemma those_map_mono:
  assumes "those (map f xs) = Some ys" and "\<And>x y. x \<in> set xs \<Longrightarrow> f x = Some y \<Longrightarrow> g x = Some y"
  shows "those (map g xs) = Some ys"
  using assms
proof (induction xs arbitrary: ys)
  case Nil
  then show ?case by simp
next
  case (Cons x xs)
  from Cons.prems(1) obtain y ys' where y: "f x = Some y" and ys': "those (map f xs) = Some ys'"
    and ys: "ys = y # ys'"
    by (auto split: option.splits)
  from Cons.prems(2) [of x y] y have "g x = Some y" by simp
  moreover from Cons.IH [OF ys'] Cons.prems(2) have "those (map g xs) = Some ys'" by simp
  ultimately show ?case using ys by simp
qed

lemma value_of_extend:
  assumes "value_of n h v = Some x"
  shows "value_of n (h @ new) v = Some x"
  using assms
proof (induction n arbitrary: v x)
  case 0
  then show ?case by (cases v) simp_all
next
  case (Suc n)
  show ?case
  proof (cases v)
    case (Ref a)
    with Suc.prems have a: "a < length h" by (auto split: if_splits)
    show ?thesis
    proof (cases "h ! a")
      case (DictObj kvs)
      with Suc.prems Ref a obtain doc where
        doc: "those (map (\<lambda>(k, v). map_option (Pair k) (value_of n h v)) kvs) = Some doc"
        and x: "x = PDict doc"
        by auto
      have "those (map (\<lambda>(k, v). map_option (Pair k) (value_of n (h @ new) v)) kvs) = Some doc"
        using doc by (rule those_map_mono) (auto dest: Suc.IH)
      with Ref a DictObj x show ?thesis by (simp add: nth_append)
    next
      case (ListObj xs)
      with Suc.prems Ref a obtain ys where
        ys: "those (map (value_of n h) xs) = Some ys" and x: "x = PList ys"
        by auto
      have "those (map (value_of n (h @ new)) xs) = Some ys"
        using ys by (rule those_map_mono) (auto dest: Suc.IH)
      with Ref a ListObj x show ?thesis by (simp add: nth_append)
    qed
  qed (use Suc.prems in simp_all)
qed

lemma document_at_extend:
  assumes "document_at n h a = Some doc"
  shows "document_at n (h @ new) a = Some doc"
proof -
  from assms have "value_of n h (Ref a) = Some (PDict doc)"
    by (auto simp: document_at_def split: option.splits pyval.splits)
  from value_of_extend [OF this] show ?thesis by (simp add: document_at_def)
qed

lemma those_setitem:
  assumes "those (map (\<lambda>(k, v). map_option (Pair k) (F v)) kvs) = Some doc" and "F w = Some w'"
  shows "those (map (\<lambda>(k, v). map_option (Pair k) (F v)) (setitem kvs key w))
           = Some (setitem doc key w')"
  using assms
proof (induction kvs arbitrary: doc)
  case Nil
  then show ?case by simp
next
  case (Cons kv kvs)
  obtain k v where kv: "kv = (k, v)" by (cases kv)
  with Cons.prems(1) obtain v' rest where v': "F v = Some v'"
    and rest: "those (map (\<lambda>(k, v). map_option (Pair k) (F v)) kvs) = Some rest"
    and doc: "doc = (k, v') # rest"
    by (auto split: option.splits)
  from Cons.IH [OF rest Cons.prems(2)] kv v' rest doc Cons.prems(2) show ?case
    by simp
qed

lemma those_keys:
  assumes "those (map (\<lambda>(k, v). map_option (Pair k) (F v)) kvs) = Some doc"
  shows "map fst doc = map fst kvs"
  using assms
proof (induction kvs arbitrary: doc)
  case Nil
  then show ?case by simp
next
  case (Cons kv kvs)
  obtain k v where kv: "kv = (k, v)" by (cases kv)
  with Cons.prems obtain v' rest where
    rest: "those (map (\<lambda>(k, v). map_option (Pair k) (F v)) kvs) = Some rest"
    and doc: "doc = (k, v') # rest"
    by (auto split: option.splits)
  from Cons.IH [OF rest] kv doc show ?case by simp
qed

lemma getitem_same_keys:
  assumes "map fst doc = map fst kvs"
  shows "map_sum id (\<lambda>_. ()) (getitem doc key) = map_sum id (\<lambda>_. ()) (getitem kvs key)"
proof -
  have "(map_of doc key = None) = (map_of kvs key = None)"
    using assms by (metis map_of_eq_None_iff set_map)
  then show ?thesis
    by (auto simp: getitem_def split: option.splits)
qed

lemma document_at_dict:
  assumes "document_at n h a = Some doc"
  obtains m kvs where "n = Suc m" and "a < length h" and "h ! a = DictObj kvs"
    and "those (map (\<lambda>(k, v). map_option (Pair k) (value_of m h v)) kvs) = Some doc"
proof -
  from assms have v: "value_of n h (Ref a) = Some (PDict doc)"
    by (auto simp: document_at_def split: option.splits pyval.splits)
  then obtain m where n: "n = Suc m" by (cases n) auto
  with v have a: "a < length h" by (auto split: if_splits)
  with v n obtain kvs where "h ! a = DictObj kvs"
    and "those (map (\<lambda>(k, v). map_option (Pair k) (value_of m h v)) kvs) = Some doc"
    by (cases "h ! a") auto
  with n a that show thesis by blast
qed

lemma list_getitem_map: "list_getitem (map f xs) i = map_sum id f (list_getitem xs i)"
proof -
  have "nat (int (length xs) + i) < length xs" if "i < 0" and "- int (length xs) \<le> i"
    using that by linarith
  moreover have "nat i < length xs" if "0 \<le> i" and "i < int (length xs)"
    using that by linarith
  ultimately show ?thesis
    by (auto simp: list_getitem_def)
qed

lemma copy_reads_as_copy:
  assumes "document_at n h stored = Some doc" and "h ! stored = DictObj kvs"
  shows "document_at n (h @ [DictObj (setitem kvs key (VFloat x))] @ new) (length h)
           = Some (setitem doc key (PFloat x))"
proof -
  let ?h' = "h @ [DictObj (setitem kvs key (VFloat x))] @ new"
  from assms(1) obtain m kvs' where n: "n = Suc m" and "h ! stored = DictObj kvs'"
    and "those (map (\<lambda>(k, v). map_option (Pair k) (value_of m h v)) kvs') = Some doc"
    by (rule document_at_dict)
  with assms(2) have
    old: "those (map (\<lambda>(k, v). map_option (Pair k) (value_of m h v)) kvs) = Some doc"
    by simp
  have "those (map (\<lambda>(k, v). map_option (Pair k) (value_of m ?h' v)) kvs) = Some doc"
    using old by (rule those_map_mono) (auto dest: value_of_extend)
  moreover have "value_of m ?h' (VFloat x) = Some (PFloat x)" by simp
  ultimately have
    "those (map (\<lambda>(k, v). map_option (Pair k) (value_of m ?h' v)) (setitem kvs key (VFloat x)))
       = Some (setitem doc key (PFloat x))"
    by (rule those_setitem)
  then show ?thesis
    unfolding n by (simp add: document_at_def nth_append)
qed

text \<open>The loop, by induction on the hits, the heap growing from round to round.\<close>

lemma prepare_results_refs_reads:
  assumes "map (document_at n h) docs = map Some ds"
    and "prepare_results_refs h docs hits = (r, h')"
  shows "map_sum id (map (document_at n h')) r = map_sum id (map Some) (prepare_results ds hits)"
  using assms
proof (induction hits arbitrary: h r h')
  case Nil
  then show ?case by auto
next
  case (Cons hit hits)
  obtain distance idx where hit: "hit = (distance, idx)" by (cases hit)
  note inv = Cons.prems(1)
  note run = Cons.prems(2) [unfolded hit]
  show ?case
  proof (cases "idx = - 1")
    case True
    with run have "prepare_results_refs h docs hits = (r, h')" by simp
    from Cons.IH [OF inv this] True hit show ?thesis by simp
  next
    case False
    have same: "map_sum id (document_at n h) (list_getitem docs idx)
                  = map_sum id Some (list_getitem ds idx)"
      using inv list_getitem_map [of "document_at n h" docs idx] list_getitem_map [of Some ds idx]
      by simp
    show ?thesis
    proof (cases "list_getitem docs idx")
      case (Inl e)
      with same have "list_getitem ds idx = Inl e" by (cases "list_getitem ds idx") auto
      with Inl run False hit show ?thesis by auto
    next
      case got: (Inr stored)
      with same obtain doc where got': "list_getitem ds idx = Inr doc"
        and doc: "document_at n h stored = Some doc"
        by (cases "list_getitem ds idx") auto
      from doc obtain m kvs where stored: "stored < length h" and kvs: "h ! stored = DictObj kvs"
        and entries: "those (map (\<lambda>(k, v). map_option (Pair k) (value_of m h v)) kvs) = Some doc"
        by (rule document_at_dict)
      let ?x = "1 - distance / 2"
      let ?kvs' = "setitem kvs ''similarity_score'' (VFloat ?x)"
      let ?doc' = "setitem doc ''similarity_score'' (PFloat ?x)"
      let ?h2 = "h @ [DictObj ?kvs']"
      have cp: "obj_copy h stored = Inr (length h, h @ [DictObj kvs])"
        using stored kvs by (simp add: obj_copy_def alloc_def)
      have st: "obj_setitem (h @ [DictObj kvs]) (length h) ''similarity_score'' (VFloat ?x) = Inr ?h2"
        by (simp add: obj_setitem_def)
      have gt: "obj_getitem ?h2 (length h) ''id'' = getitem ?kvs' ''id''"
        by (simp add: obj_getitem_def)
      have "value_of m h (VFloat ?x) = Some (PFloat ?x)" by simp
      with entries have
        "those (map (\<lambda>(k, v). map_option (Pair k) (value_of m h v)) ?kvs') = Some ?doc'"
        by (rule those_setitem)
      then have "map fst ?doc' = map fst ?kvs'" by (rule those_keys)
      then have ids: "map_sum id (\<lambda>_. ()) (getitem ?doc' ''id'')
                        = map_sum id (\<lambda>_. ()) (getitem ?kvs' ''id'')"
        by (rule getitem_same_keys)
      show ?thesis
      proof (cases "getitem ?kvs' ''id''")
        case (Inl e)
        with ids have "getitem ?doc' ''id'' = Inl e" by (cases "getitem ?doc' ''id''") auto
        with Inl run False hit got got' cp st gt show ?thesis by (auto simp: Let_def)
      next
        case (Inr v)
        with ids obtain v' where id': "getitem ?doc' ''id'' = Inr v'"
          by (cases "getitem ?doc' ''id''") auto
        obtain r3 h3 where rec: "prepare_results_refs ?h2 docs hits = (r3, h3)"
          by (cases "prepare_results_refs ?h2 docs hits")
        with run False got cp st gt Inr have h3: "h3 = h'"
          and r: "r = (case r3 of Inl e \<Rightarrow> Inl e | Inr results \<Rightarrow> Inr (length h # results))"
          by (auto split: sum.splits)
        have inv2: "map (document_at n ?h2) docs = map Some ds"
        proof -
          have "document_at n ?h2 a = Some d" if "document_at n h a = Some d" for a d
            using that by (rule document_at_extend)
          then have "map (document_at n ?h2) docs = map (document_at n h) docs"
            using inv by (auto simp: list_eq_iff_nth_eq)
          with inv show ?thesis by simp
        qed
        from Cons.IH [OF inv2 rec [unfolded h3]]
        have ih: "map_sum id (map (document_at n h')) r3
                    = map_sum id (map Some) (prepare_results ds hits)" .
        from prepare_results_refs_extends [OF rec [unfolded h3]]
        obtain new where h': "h' = ?h2 @ new" ..
        have head: "document_at n h' (length h) = Some ?doc'"
          unfolding h' using copy_reads_as_copy [OF doc kvs, of "''similarity_score''" ?x new]
          by simp
        show ?thesis
        proof (cases r3)
          case (Inl e)
          with ih have "prepare_results ds hits = Inl e"
            by (cases "prepare_results ds hits") auto
          with Inl r False hit got' id' show ?thesis by (simp add: Let_def)
        next
          case (Inr results)
          with ih obtain rs where "prepare_results ds hits = Inr rs"
            and "map (document_at n h') results = map Some rs"
            by (cases "prepare_results ds hits") auto
          with Inr r False hit got' id' head show ?thesis by (simp add: Let_def)
        qed
      qed
    qed
  qed
qed

lemma search_refs_reads_as_search:
  assumes "map (document_at n h) docs = map Some (documents s)"
    and "search_refs h (index s) docs query k = (r, h')"
  shows "map_sum id (map (document_at n h')) r = map_sum id (map Some) (search s query k)"
proof (cases "ntotal (index s) = 0")
  case True
  with assms(2) show ?thesis by (auto simp: search_refs_def search_def)
next
  case False
  show ?thesis
  proof (cases "index_search (index s) query (min k (int (ntotal (index s))))")
    case (Inl e)
    with assms(2) False show ?thesis by (auto simp: search_refs_def search_def Let_def)
  next
    case (Inr hits)
    with assms(2) False have "prepare_results_refs h docs hits = (r, h')"
      by (simp add: search_refs_def Let_def)
    from prepare_results_refs_reads [OF assms(1) this] Inr False show ?thesis
      by (simp add: search_def Let_def)
  qed
qed

end
